theory Spec2Isabelle
  imports Complex_Main "HOL-Library.List_Lexorder" "HOL-Library.Product_Lexorder"
begin

chapter \<open>th-helpers: the result-rate helpers and the Labs event scraper\<close>

text \<open>
  A shallow embedding of two Python modules:
  \<^item> \<^verbatim>\<open>src/th_helpers/components/result_rate.py\<close>: the table of result-rate strategies,
    the label helper and \<^verbatim>\<open>calculate_result_rate\<close>;
  \<^item> \<^verbatim>\<open>scripts/generate_lab_events.py\<close>: the listing parser, the player-count
    extraction, the snapshot loader and the orchestrator \<^verbatim>\<open>scrape_labs_events\<close>.
  Definitions come first, the theorems about them afterwards.
\<close>

section \<open>Python values\<close>

subsection \<open>Exceptions\<close>

text \<open>
  A function that can raise returns a sum, \<open>Inl\<close> carrying the exception.
  \<^verbatim>\<open>ValueError\<close> carries the fixed text of its message and the value the message
  quotes (the strategy key, the string that did not parse). \<^verbatim>\<open>ClientError\<close> stands for
  whatever \<^verbatim>\<open>fetch_html\<close> raises: a failed connection or, from
  \<^verbatim>\<open>raise_for_status\<close>, a response that is not a success.
\<close>

datatype 'a exn =
    ValueError string 'a
  | ZeroDivisionError
  | TypeError
  | AttributeError
  | ClientError

subsection \<open>Strings\<close>

text \<open>
  A Python \<^verbatim>\<open>str\<close> is a sequence of Unicode code points, and \<^verbatim>\<open>find\<close>, slicing and
  \<^verbatim>\<open>len\<close> count code points: the en dash of a date range is one position. So a string
  is a list of code point numbers, and \<open>str\<close> turns an ASCII literal into one. Python
  orders strings by code point, the order \<open><\<close> of lists of numbers.
\<close>

type_synonym pystr = "nat list"

definition str :: "string \<Rightarrow> pystr" where
  "str s = map of_char s"

text \<open>
  \<^verbatim>\<open>str.isspace\<close>, which is also what \<^verbatim>\<open>str.strip()\<close> removes and what the
  white-space class of a regular expression over \<^verbatim>\<open>str\<close> matches.
\<close>

definition whitespace :: "nat list" where
  "whitespace =
     [9, 10, 11, 12, 13, 28, 29, 30, 31, 32, 133, 160, 5760,
      8192, 8193, 8194, 8195, 8196, 8197, 8198, 8199, 8200, 8201, 8202,
      8232, 8233, 8239, 8287, 12288]"

definition isspace :: "nat \<Rightarrow> bool" where
  "isspace c = (c \<in> set whitespace)"

text \<open>
  The decimal digits: the digit class of a regular expression over \<^verbatim>\<open>str\<close> matches
  every character of Unicode category Nd, and \<^verbatim>\<open>int()\<close> reads each with its decimal value. The category
  is 66 runs of ten code points (Unicode 14.0, the table of CPython 3.11); the list gives
  the zero of each run.
\<close>

definition decimal_zeros :: "nat list" where
  "decimal_zeros =
     [48, 1632, 1776, 1984, 2406, 2534, 2662, 2790, 2918, 3046, 3174, 3302, 3430, 3558,
      3664, 3792, 3872, 4160, 4240, 6112, 6160, 6470, 6608, 6784, 6800, 6992, 7088, 7232,
      7248, 42528, 43216, 43264, 43472, 43504, 43600, 44016, 65296, 66720, 68912, 69734,
      69872, 69942, 70096, 70384, 70736, 70864, 71248, 71360, 71472, 71904, 72016, 72784,
      73040, 73120, 92768, 92864, 93008, 120782, 120792, 120802, 120812, 120822, 123200,
      123632, 125264, 130032]"

definition decimal :: "nat \<Rightarrow> nat option" where
  "decimal c = map_option (\<lambda>z. c - z) (find (\<lambda>z. z \<le> c \<and> c < z + 10) decimal_zeros)"

definition isdecimal :: "nat \<Rightarrow> bool" where
  "isdecimal c = (decimal c \<noteq> None)"

definition strip :: "pystr \<Rightarrow> pystr" where
  "strip s = rev (dropWhile isspace (rev (dropWhile isspace s)))"

text \<open>\<^verbatim>\<open>s.find(sub)\<close>: the index of the first occurrence, or \<open>-1\<close>.\<close>

fun find_from :: "pystr \<Rightarrow> pystr \<Rightarrow> nat \<Rightarrow> int" where
  "find_from sub [] i = (if sub = [] then int i else - 1)"
| "find_from sub (c # cs) i =
     (if take (length sub) (c # cs) = sub then int i else find_from sub cs (Suc i))"

definition py_find :: "pystr \<Rightarrow> pystr \<Rightarrow> int" where
  "py_find s sub = find_from sub s 0"

text \<open>
  The slices \<^verbatim>\<open>s[:i]\<close> and \<^verbatim>\<open>s[i:]\<close>. A negative index counts from the end, so
  \<^verbatim>\<open>s[:-1]\<close> is \<open>s\<close> without its last character and \<^verbatim>\<open>s[-1:]\<close> is the last
  character; an index beyond either end is clipped.
\<close>

definition slice_to :: "pystr \<Rightarrow> int \<Rightarrow> pystr" where
  "slice_to s i = (if i < 0 then take (nat (int (length s) + i)) s else take (nat i) s)"

definition slice_from :: "pystr \<Rightarrow> int \<Rightarrow> pystr" where
  "slice_from s i = (if i < 0 then drop (nat (int (length s) + i)) s else drop (nat i) s)"

text \<open>\<^verbatim>\<open>s.split(sep)\<close> for a separator of one character.\<close>

fun split :: "pystr \<Rightarrow> nat \<Rightarrow> pystr list" where
  "split [] sep = [[]]"
| "split (c # cs) sep =
     (if c = sep then [] # split cs sep
      else (case split cs sep of [] \<Rightarrow> [[c]] | w # ws \<Rightarrow> (c # w) # ws))"

definition endswith :: "pystr \<Rightarrow> pystr \<Rightarrow> bool" where
  "endswith s suffix = (length suffix \<le> length s \<and> drop (length s - length suffix) s = suffix)"

definition startswith :: "pystr \<Rightarrow> pystr \<Rightarrow> bool" where
  "startswith s prefix = (take (length prefix) s = prefix)"

text \<open>
  The value of a string of decimal digits, most significant first, and the decimal
  numeral of a number.
\<close>

fun int_of_decimals :: "nat list \<Rightarrow> nat \<Rightarrow> nat" where
  "int_of_decimals [] acc = acc"
| "int_of_decimals (c # cs) acc = int_of_decimals cs (10 * acc + the (decimal c))"

function decimal_str :: "nat \<Rightarrow> pystr" where
  "decimal_str n = (if n < 10 then [48 + n] else decimal_str (n div 10) @ [48 + n mod 10])"
  by pat_completeness auto
termination
  by (relation "measure (\<lambda>n. n)") auto

declare decimal_str.simps [simp del]

subsection \<open>Dictionaries\<close>

text \<open>
  A dictionary comprehension stores its entries in order, a later entry replacing an
  earlier one under an equal key.
\<close>

fun dict_of :: "('a \<times> 'b) list \<Rightarrow> ('a \<rightharpoonup> 'b) \<Rightarrow> ('a \<rightharpoonup> 'b)" where
  "dict_of [] m = m"
| "dict_of ((k, v) # kvs) m = dict_of kvs (m(k \<mapsto> v))"

section \<open>result\_rate.py\<close>

subsection \<open>The constants of \<^verbatim>\<open>utils.constants\<close>\<close>

text \<open>
  The module reads its strategy keys from \<^verbatim>\<open>c.RESULT_RATE_STRATEGY\<close>, which is defined
  in \<^verbatim>\<open>utils/constants.py\<close>, a file outside the sources at hand. The five keys are
  therefore a parameter of everything below: a record \<open>c\<close> of five values of an
  arbitrary type \<open>'k\<close> (any hashable Python value). Nothing is assumed about them; a
  theorem that needs the five keys to be different says so.
\<close>

record 'k RESULT_RATE_STRATEGY =
  IGNORE_TIES :: 'k
  TIES_COUNT_AS_LOSSES :: 'k
  TIES_COUNT_AS_HALF_WIN :: 'k
  TIES_COUNT_AS_THIRD_WIN :: 'k
  TIES_COUNT_AS_WINS :: 'k

text \<open>
  Modelled from the spec: the three field names \<^verbatim>\<open>c.RESULT_RATE_FIELD.LABEL\<close>,
  \<^verbatim>\<open>FORMULA\<close> and \<^verbatim>\<open>CALCULATE\<close> (also of \<^verbatim>\<open>utils/constants.py\<close>) index the inner
  dictionary of each strategy, which the spec describes as a "lookup table from key
  \<rightarrow> label/formula/calculation". They are the three fields of a record here.
  Whatever the three names are, the entry under \<^verbatim>\<open>CALCULATE\<close> is the lambda, since it is
  the last one the dictionary display stores.
\<close>

record details =
  LABEL :: string
  FORMULA :: string
  CALCULATE :: "rat \<Rightarrow> rat \<Rightarrow> rat \<Rightarrow> rat \<times> rat"

subsection \<open>Numbers\<close>

text \<open>
  \<^verbatim>\<open>wins\<close>, \<^verbatim>\<open>losses\<close> and \<^verbatim>\<open>ties\<close> are "int or float". They are exact rationals
  here, and \<open>+\<close> and \<open>/\<close> are the exact operations: the rounding error of binary
  floating point is outside this model. Division is the one operation of the module that
  can fail, so it returns a sum.
\<close>

definition truediv :: "rat \<Rightarrow> rat \<Rightarrow> 'k exn + rat" where
  "truediv a b = (if b = 0 then Inl ZeroDivisionError else Inr (a / b))"

text \<open>
  \<^verbatim>\<open>round(x, ndigits)\<close>: to the nearest multiple of \<open>10\<^sup>-\<^sup>n\<close>, a tie going to the
  even neighbour.
\<close>

definition round_half_even :: "rat \<Rightarrow> int" where
  "round_half_even x =
     (let f = \<lfloor>x\<rfloor>; d = x - of_int f
      in if d < 1 / 2 then f
         else if 1 / 2 < d then f + 1
         else if even f then f else f + 1)"

definition py_round :: "rat \<Rightarrow> nat \<Rightarrow> rat" where
  "py_round x ndigits = of_int (round_half_even (x * 10 ^ ndigits)) / 10 ^ ndigits"

subsection \<open>The strategy table\<close>

text \<open>The backslash of the raw string literals is written \<open>CHR 0x5C\<close>.\<close>

definition frac :: "string \<Rightarrow> string \<Rightarrow> string" where
  "frac num den = [CHR 0x5C] @ ''frac{'' @ num @ ''}{'' @ den @ ''}''"

definition RESULT_RATES ::
  "'k RESULT_RATE_STRATEGY \<Rightarrow> ('k \<times> string \<times> string \<times> (rat \<Rightarrow> rat \<Rightarrow> rat \<Rightarrow> rat \<times> rat)) list"
where
  "RESULT_RATES c =
     [(IGNORE_TIES c,
       ''Ignore Ties'',
       ''% = $'' @ frac ''W'' ''W+L'' @ ''$'',
       \<lambda>w l t. (w, w + l)),
      (TIES_COUNT_AS_LOSSES c,
       ''Count Ties as Losses'',
       ''% = $'' @ frac ''W'' ''W+L+T'' @ ''$'',
       \<lambda>w l t. (w, w + l + t)),
      (TIES_COUNT_AS_HALF_WIN c,
       ''Count Ties as 1/2 Win'',
       ''% = $'' @ frac (''W + '' @ frac ''T'' ''2'') ''W+L+T'' @ ''$'',
       \<lambda>w l t. (w + t / 2, w + l + t)),
      (TIES_COUNT_AS_THIRD_WIN c,
       ''Count Ties as 1/3 Win'',
       ''% = $'' @ frac (''W + '' @ frac ''T'' ''3'') ''W+L+T'' @ ''$'',
       \<lambda>w l t. (w + t / 3, w + l + t)),
      (TIES_COUNT_AS_WINS c,
       ''Count Ties as Wins'',
       ''% = $'' @ frac ''W + T'' ''W+L+T'' @ ''$'',
       \<lambda>w l t. (w + t, w + l + t))]"

definition RESULT_RATE_STRATEGY_DETAILS :: "'k RESULT_RATE_STRATEGY \<Rightarrow> ('k \<rightharpoonup> details)" where
  "RESULT_RATE_STRATEGY_DETAILS c =
     dict_of
       (map (\<lambda>(k, label, formula, calc).
               (k, \<lparr>LABEL = label, FORMULA = formula, CALCULATE = calc\<rparr>))
          (RESULT_RATES c))
       Map.empty"

text \<open>The five keys, in the order of the table.\<close>

definition strategy_keys :: "'k RESULT_RATE_STRATEGY \<Rightarrow> 'k list" where
  "strategy_keys c = map fst (RESULT_RATES c)"

subsection \<open>\<^verbatim>\<open>create_result_rate_label\<close>\<close>

text \<open>The \<^verbatim>\<open>dcc.Markdown\<close> component the helper returns, by its three arguments.\<close>

datatype markdown = Markdown (children: string) (className: string) (mathjax: bool)

definition create_result_rate_label ::
  "'k RESULT_RATE_STRATEGY \<Rightarrow> 'k \<Rightarrow> bool \<Rightarrow> markdown option"
where
  "create_result_rate_label c strategy formula_only =
     (case RESULT_RATE_STRATEGY_DETAILS c strategy of
        None \<Rightarrow> None
      | Some d \<Rightarrow>
          (let label = FORMULA d;
               label = (if \<not> formula_only then LABEL d @ '': '' @ label else label)
           in Some (Markdown label ''m-0'' True)))"

subsection \<open>\<^verbatim>\<open>calculate_result_rate\<close>\<close>

text \<open>
  The lookup of an unknown key raises \<^verbatim>\<open>KeyError\<close>, which the function turns into
  \<^verbatim>\<open>ValueError(f'Unknown result rate strategy: {strategy}')\<close>: the error value carries
  the text before the key and the key itself.
\<close>

definition calculate_result_rate ::
  "'k RESULT_RATE_STRATEGY \<Rightarrow> 'k \<Rightarrow> rat \<Rightarrow> rat \<Rightarrow> rat \<Rightarrow> bool \<Rightarrow> 'k exn + rat"
where
  "calculate_result_rate c strategy wins losses ties percentage =
     (case RESULT_RATE_STRATEGY_DETAILS c strategy of
        None \<Rightarrow> Inl (ValueError ''Unknown result rate strategy: '' strategy)
      | Some d \<Rightarrow>
          (let (numerator, denominator) = CALCULATE d wins losses ties
           in case (if denominator = 0 then Inr 0 else truediv numerator denominator) of
                Inl e \<Rightarrow> Inl e
              | Inr rate \<Rightarrow> Inr (if percentage then py_round (rate * 100) 1 else rate)))"

section \<open>generate\_lab\_events.py\<close>

subsection \<open>The parsed page\<close>

text \<open>
  \<^verbatim>\<open>BeautifulSoup(page_html, 'html.parser')\<close> is the work of a library; the functions
  below take its result, a tree. An element has a name, the list of its classes, its
  other attributes and its contents; a \<open>NavigableString\<close> is a piece of text; a
  \<open>Comment\<close> is a string of one of the classes that \<^verbatim>\<open>get_text\<close> leaves out (a comment,
  a declaration, the text of a script or a style element). The \<^verbatim>\<open>class\<close> attribute
  is the one multi-valued attribute of the model; \<^verbatim>\<open>href\<close> is a plain string.
\<close>

datatype node =
    Tag (tag_name: pystr) (tag_classes: "pystr list") (tag_attrs: "(pystr \<times> pystr) list")
        (tag_contents: "node list")
  | NavigableString pystr
  | Comment pystr

fun is_tag :: "node \<Rightarrow> bool" where
  "is_tag (Tag n cl atts cs) = True"
| "is_tag _ = False"

text \<open>\<^verbatim>\<open>el.descendants\<close>: everything below an element, in document order.\<close>

fun descendants :: "node \<Rightarrow> node list" where
  "descendants (Tag n cl atts cs) = concat (map (\<lambda>c. c # descendants c) cs)"
| "descendants _ = []"

text \<open>
  \<^verbatim>\<open>soup.select_one('ul.grid')\<close>: the first element of the document, in document order,
  named \<open>ul\<close> with \<open>grid\<close> among its classes, or \<^verbatim>\<open>None\<close>.
\<close>

definition select_one_ul_grid :: "node \<Rightarrow> node option" where
  "select_one_ul_grid soup =
     find (\<lambda>el. is_tag el \<and> tag_name el = str ''ul'' \<and> str ''grid'' \<in> set (tag_classes el))
       (descendants soup)"

fun children :: "node \<Rightarrow> node list" where
  "children (Tag n cl atts cs) = cs"
| "children _ = []"

text \<open>
  \<^verbatim>\<open>el.find_all(nm, recursive=False)\<close> and \<^verbatim>\<open>el.find(nm, recursive=False)\<close>: the
  children of that name, and the first of them.
\<close>

definition find_all :: "node \<Rightarrow> pystr \<Rightarrow> node list" where
  "find_all el nm = filter (\<lambda>c. is_tag c \<and> tag_name c = nm) (children el)"

definition find_tag :: "node \<Rightarrow> pystr \<Rightarrow> node option" where
  "find_tag el nm = find (\<lambda>c. is_tag c \<and> tag_name c = nm) (children el)"

text \<open>\<^verbatim>\<open>el.has_attr(key)\<close> and \<^verbatim>\<open>el[key]\<close> in one: the value, if the attribute is there.\<close>

fun attr :: "node \<Rightarrow> pystr \<Rightarrow> pystr option" where
  "attr (Tag n cl atts cs) key = map_of atts key"
| "attr _ key = None"

text \<open>
  \<^verbatim>\<open>el.get_text(strip=True)\<close>: the text strings below the element, each stripped, the
  empty ones dropped, joined with nothing in between.
\<close>

fun string_of :: "node \<Rightarrow> pystr list" where
  "string_of (NavigableString s) = [s]"
| "string_of _ = []"

definition get_text :: "node \<Rightarrow> pystr" where
  "get_text el =
     concat (filter (\<lambda>s. s \<noteq> []) (map strip (concat (map string_of (descendants el)))))"

subsection \<open>\<^verbatim>\<open>datetime.strptime(date_str, '%B %d, %Y')\<close> and \<^verbatim>\<open>strftime('%Y-%m-%d')\<close>\<close>

text \<open>
  The standard library turns the format \<^verbatim>\<open>'%B %d, %Y'\<close> into a regular expression,
  matched at the start of the string without regard to case:
  \<^item> \<^verbatim>\<open>%B\<close>: one of the twelve English month names (the C locale);
  \<^item> each blank of the format: one or more white-space characters;
  \<^item> \<^verbatim>\<open>%d\<close>: the alternatives \<open>3[0-1]\<close>, \<open>[1-2]\<close> and a digit, \<open>0[1-9]\<close>,
    \<open>[1-9]\<close>, tried in this order;
  \<^item> the comma: itself, with nothing before it;
  \<^item> \<^verbatim>\<open>%Y\<close>: four digits.
  Data left over after the match, a year 0 and a day the month does not have each raise
  \<^verbatim>\<open>ValueError\<close>, as a string that does not match does.

  Two things the library does are left out, since they change no result. The pattern for
  \<^verbatim>\<open>%d\<close> has a fifth alternative, a blank and \<open>[1-9]\<close>; the white space before the day
  has already taken every blank, and where the library gives one back to reach that
  alternative it reads the day and the rest that \<open>[1-9]\<close> read. And matching
  without regard to case lets three letters outside ASCII stand for \<open>i\<close> and \<open>s\<close>; the
  month found is then looked up in the list of names, is not there, and that raises
  \<^verbatim>\<open>ValueError\<close> too. So a month is recognised exactly when it is an English month name
  up to the case of its ASCII letters.
\<close>

definition months :: "pystr list" where
  "months = map str [''january'', ''february'', ''march'', ''april'', ''may'', ''june'', ''july'',
     ''august'', ''september'', ''october'', ''november'', ''december'']"

definition lower :: "nat \<Rightarrow> nat" where
  "lower c = (if 65 \<le> c \<and> c \<le> 90 then c + 32 else c)"

fun match_month :: "pystr list \<Rightarrow> nat \<Rightarrow> pystr \<Rightarrow> (nat \<times> pystr) option" where
  "match_month [] i s = None"
| "match_month (m # ms) i s =
     (if map lower (take (length m) s) = m then Some (i, drop (length m) s)
      else match_month ms (Suc i) s)"

text \<open>The ways to read a day at the start of \<open>s\<close>, each with what is left.\<close>

definition day_alternatives :: "pystr \<Rightarrow> (nat \<times> pystr) list" where
  "day_alternatives s =
     (case s of
        a # b # r \<Rightarrow>
          (if a = 51 \<and> (b = 48 \<or> b = 49) then [(30 + (b - 48), r)] else []) @
          (if (a = 49 \<or> a = 50) \<and> isdecimal b then [(10 * (a - 48) + the (decimal b), r)] else []) @
          (if a = 48 \<and> 49 \<le> b \<and> b \<le> 57 then [(b - 48, r)] else [])
      | _ \<Rightarrow> []) @
     (case s of
        a # r \<Rightarrow> (if 49 \<le> a \<and> a \<le> 57 then [(a - 48, r)] else [])
      | _ \<Rightarrow> [])"

text \<open>The comma, the white space and the year, with what is left.\<close>

definition match_year :: "pystr \<Rightarrow> (nat \<times> pystr) option" where
  "match_year s =
     (case s of
        c # r \<Rightarrow>
          (let ws = takeWhile isspace r; r' = dropWhile isspace r
           in if c = 44 \<and> ws \<noteq> [] \<and> 4 \<le> length r' \<and> list_all isdecimal (take 4 r')
              then Some (int_of_decimals (take 4 r') 0, drop 4 r')
              else None)
      | [] \<Rightarrow> None)"

definition is_leap :: "nat \<Rightarrow> bool" where
  "is_leap y = (y mod 4 = 0 \<and> (y mod 100 \<noteq> 0 \<or> y mod 400 = 0))"

definition days_in_month :: "nat \<Rightarrow> nat \<Rightarrow> nat" where
  "days_in_month y m =
     (if m = 2 then (if is_leap y then 29 else 28)
      else if m \<in> {4, 6, 9, 11} then 30 else 31)"

record date =
  year :: nat
  month :: nat
  day :: nat

definition strptime :: "pystr \<Rightarrow> pystr exn + date" where
  "strptime data_string =
     (case match_month months 1 data_string of
        None \<Rightarrow> Inl (ValueError ''time data does not match format'' data_string)
      | Some (m, r) \<Rightarrow>
          (let ws = takeWhile isspace r; r' = dropWhile isspace r
           in if ws = [] then Inl (ValueError ''time data does not match format'' data_string)
              else (case List.map_filter
                           (\<lambda>(d, r''). map_option (\<lambda>(y, rest). (d, y, rest)) (match_year r''))
                           (day_alternatives r') of
                      [] \<Rightarrow> Inl (ValueError ''time data does not match format'' data_string)
                    | (d, y, rest) # _ \<Rightarrow>
                        if rest \<noteq> [] then Inl (ValueError ''unconverted data remains'' rest)
                        else if y < 1 then Inl (ValueError ''year is out of range'' data_string)
                        else if days_in_month y m < d
                        then Inl (ValueError ''day is out of range for month'' data_string)
                        else Inr \<lparr>year = y, month = m, day = d\<rparr>)))"

text \<open>
  \<^verbatim>\<open>strftime('%Y-%m-%d')\<close>: month and day take two digits; the year is printed as the
  C library prints it, which on Linux is without padding.
\<close>

definition two_digits :: "nat \<Rightarrow> pystr" where
  "two_digits n = [48 + n div 10, 48 + n mod 10]"

definition strftime :: "date \<Rightarrow> pystr" where
  "strftime d = decimal_str (year d) @ [45] @ two_digits (month d) @ [45] @ two_digits (day d)"

subsection \<open>\<^verbatim>\<open>extract_labs_list_items\<close>\<close>

definition en_dash :: nat where
  "en_dash = 8211"

text \<open>
  Lines 94 to 96: the text before the first en dash, then the text from the first comma
  on. An index of \<open>-1\<close>, for a character that is not there, is an index like any
  other to the slices.
\<close>

definition date_str :: "pystr \<Rightarrow> pystr" where
  "date_str text2 =
     (let dash_index = py_find text2 [en_dash];
          comma_index = py_find text2 (str '','')
      in slice_to text2 dash_index @ slice_from text2 comma_index)"

text \<open>The body of the \<^verbatim>\<open>try\<close>, lines 94 to 99.\<close>

definition parse_date :: "pystr \<Rightarrow> pystr exn + pystr" where
  "parse_date text2 =
     (case strptime (date_str text2) of
        Inl e \<Rightarrow> Inl e
      | Inr date_obj \<Rightarrow> Inr (strftime date_obj))"

text \<open>What \<^verbatim>\<open>except (ValueError, AttributeError)\<close> catches.\<close>

fun caught :: "'a exn \<Rightarrow> bool" where
  "caught (ValueError msg v) = True"
| "caught AttributeError = True"
| "caught _ = False"

text \<open>
  Lines 91 to 103, the entry appended to \<^verbatim>\<open>dates\<close>: the date, or \<^verbatim>\<open>None\<close> when there
  is no text or a caught exception; any other exception goes on.
\<close>

definition date_entry :: "pystr option \<Rightarrow> pystr exn + pystr option" where
  "date_entry text2 =
     (case text2 of
        None \<Rightarrow> Inr None
      | Some t \<Rightarrow>
          if t = [] then Inr None
          else (case parse_date t of
                  Inr formatted_date \<Rightarrow> Inr (Some formatted_date)
                | Inl e \<Rightarrow> if caught e then Inr None else Inl e))"

text \<open>Lines 78 to 87: the two texts of an anchor, or twice \<^verbatim>\<open>None\<close>.\<close>

definition text_fields :: "node \<Rightarrow> pystr option \<times> pystr option" where
  "text_fields a =
     (let divs_inside_a = find_all a (str ''div'')
      in if 1 \<le> length divs_inside_a
         then (let inner_divs = find_all (divs_inside_a ! 0) (str ''div'')
               in if 2 \<le> length inner_divs
                  then (Some (get_text (inner_divs ! 0)), Some (get_text (inner_divs ! 1)))
                  else (None, None))
         else (None, None))"

text \<open>\<^verbatim>\<open>text1 or "Unknown Event"\<close>: \<^verbatim>\<open>None\<close> and the empty string give way.\<close>

definition or_else :: "pystr option \<Rightarrow> pystr \<Rightarrow> pystr" where
  "or_else text1 fallback =
     (case text1 of None \<Rightarrow> fallback | Some t \<Rightarrow> if t = [] then fallback else t)"

type_synonym listing = "pystr list \<times> pystr list \<times> pystr option list"

text \<open>The loop over the items, with the three lists it appends to.\<close>

fun items_loop :: "node list \<Rightarrow> listing \<Rightarrow> pystr exn + listing" where
  "items_loop [] acc = Inr acc"
| "items_loop (li # lis) (ids, names, dates) =
     (case find_tag li (str ''a'') of
        None \<Rightarrow> items_loop lis (ids, names, dates)
      | Some a \<Rightarrow>
          (case attr a (str ''href'') of
             None \<Rightarrow> items_loop lis (ids, names, dates)
           | Some href \<Rightarrow>
               (let href_split = split href 47
                in if length href_split < 2 then items_loop lis (ids, names, dates)
                   else (let tournament_id = href_split ! 1;
                             (text1, text2) = text_fields a
                         in case date_entry text2 of
                              Inl e \<Rightarrow> Inl e
                            | Inr d \<Rightarrow>
                                items_loop lis
                                  (ids @ [tournament_id],
                                   names @ [or_else text1 (str ''Unknown Event'')],
                                   dates @ [d])))))"

definition extract_labs_list_items :: "(pystr \<Rightarrow> node) \<Rightarrow> pystr \<Rightarrow> pystr exn + listing" where
  "extract_labs_list_items BeautifulSoup page_html =
     (let soup = BeautifulSoup page_html
      in case select_one_ul_grid soup of
           None \<Rightarrow> Inl (ValueError ''No <ul class='grid'> found'' [])
         | Some ul \<Rightarrow> items_loop (find_all ul (str ''li'')) ([], [], []))"

subsection \<open>\<^verbatim>\<open>extract_player_count\<close>\<close>

text \<open>
  \<^verbatim>\<open>re.search\<close> for digits, white space and the word \<open>players\<close>: the leftmost place
  where a maximal run of digits is followed by white space and the word. A shorter run
  of digits is followed by a digit and a shorter run of white space by white space, so
  giving characters back finds nothing more.
\<close>

definition match_players :: "pystr \<Rightarrow> pystr option" where
  "match_players s =
     (let group1 = takeWhile isdecimal s; r = dropWhile isdecimal s;
          ws = takeWhile isspace r; r' = dropWhile isspace r
      in if group1 \<noteq> [] \<and> ws \<noteq> [] \<and> startswith r' (str ''players'') then Some group1
         else None)"

fun re_search :: "pystr \<Rightarrow> pystr option" where
  "re_search [] = None"
| "re_search (c # cs) =
     (case match_players (c # cs) of Some group1 \<Rightarrow> Some group1 | None \<Rightarrow> re_search cs)"

text \<open>\<^verbatim>\<open>int()\<close> of a string of digits; CPython refuses more than 4300 of them.\<close>

definition py_int :: "pystr \<Rightarrow> pystr exn + int" where
  "py_int s =
     (if 4300 < length s
      then Inl (ValueError ''Exceeds the limit (4300 digits) for integer string conversion'' s)
      else Inr (int (int_of_decimals s 0)))"

definition extract_player_count :: "pystr \<Rightarrow> pystr exn + int option" where
  "extract_player_count html =
     (case re_search html of
        Some group1 \<Rightarrow> (case py_int group1 of Inl e \<Rightarrow> Inl e | Inr n \<Rightarrow> Inr (Some n))
      | None \<Rightarrow> Inr None)"

subsection \<open>Event records and the snapshot file\<close>

text \<open>
  An event record is a Python dictionary: a list of keys with their values, in the order
  of insertion, which is the order \<^verbatim>\<open>json.dump\<close> writes; \<open>map_of\<close> looks a key up. The
  values are the JSON scalars. Numbers with a fraction and nested arrays or objects as
  values of a record are outside the model.
\<close>

datatype json = JNull | JBool bool | JInt int | JStr pystr

type_synonym event = "(pystr \<times> json) list"

text \<open>
  The file at \<^verbatim>\<open>output_file\<close>: absent; there but not to be opened or not JSON; or
  holding an array of records. \<^verbatim>\<open>json.dump\<close> is a function of the list of records and
  \<^verbatim>\<open>json.load\<close> gives the same list back, so the file is the list: two files are the
  same bytes when they hold the same list. A file holding JSON of another shape is outside
  the model.
\<close>

datatype snapshot_file = NoFile | Unloadable | Saved "event list"

text \<open>
  The dictionary of the records by \<^verbatim>\<open>id\<close>. It is only ever asked for the composite ids
  of this run, which are strings, so a record whose \<^verbatim>\<open>id\<close> is not a string is left
  out: no lookup finds it.
\<close>

definition load_existing_events :: "snapshot_file \<Rightarrow> (pystr \<rightharpoonup> event)" where
  "load_existing_events output_file =
     (case output_file of
        NoFile \<Rightarrow> Map.empty
      | Unloadable \<Rightarrow> Map.empty
      | Saved events \<Rightarrow>
          dict_of
            (List.map_filter
               (\<lambda>event. case map_of event (str ''id'') of
                           Some (JStr i) \<Rightarrow> Some (i, event)
                         | _ \<Rightarrow> None)
               events)
            Map.empty)"

subsection \<open>The network\<close>

text \<open>
  What the run finds outside: the answer to a GET of each URL, the text of the page or
  an exception, and the parser of the library. Both are fixed for the length of a run.
\<close>

record world =
  http_get :: "pystr \<Rightarrow> pystr exn + pystr"
  BeautifulSoup :: "pystr \<Rightarrow> node"

definition fetch_html :: "world \<Rightarrow> pystr \<Rightarrow> pystr exn + pystr" where
  "fetch_html w url = http_get w url"

text \<open>\<^verbatim>\<open>except Exception\<close> turns every failure into \<^verbatim>\<open>None\<close>.\<close>

definition fetch_division_player_count :: "world \<Rightarrow> pystr \<Rightarrow> pystr \<Rightarrow> pystr \<Rightarrow> int option" where
  "fetch_division_player_count w base_url tournament_id division =
     (let url = base_url @ tournament_id @ str ''/'' @ division @ str ''/standings''
      in case fetch_html w url of
           Inl e \<Rightarrow> None
         | Inr html \<Rightarrow> (case extract_player_count html of Inl e \<Rightarrow> None | Inr n \<Rightarrow> n))"

subsection \<open>\<^verbatim>\<open>events.sort(key=..., reverse=True)\<close>\<close>

text \<open>
  The key of a record is the pair \<^verbatim>\<open>(x.get('date') or '', x.get('division') or '')\<close>: a
  missing key reads as \<^verbatim>\<open>None\<close>, and \<^verbatim>\<open>None\<close>, \<^verbatim>\<open>False\<close>, \<open>0\<close> and the empty
  string give way to the empty string.
\<close>

fun truthy :: "json \<Rightarrow> bool" where
  "truthy JNull = False"
| "truthy (JBool b) = b"
| "truthy (JInt i) = (i \<noteq> 0)"
| "truthy (JStr s) = (s \<noteq> [])"

definition or_empty :: "json option \<Rightarrow> json" where
  "or_empty v = (case v of None \<Rightarrow> JStr [] | Some j \<Rightarrow> if truthy j then j else JStr [])"

definition event_key :: "event \<Rightarrow> json \<times> json" where
  "event_key x = (or_empty (map_of x (str ''date'')), or_empty (map_of x (str ''division'')))"

text \<open>
  Python's \<open>==\<close> and \<open><\<close> on these values: a boolean is the number 0 or 1; numbers
  compare with numbers and strings with strings; \<open><\<close> between anything else raises
  \<^verbatim>\<open>TypeError\<close>. Two tuples compare by their first components that are not equal.
\<close>

fun number :: "json \<Rightarrow> int option" where
  "number (JBool b) = Some (if b then 1 else 0)"
| "number (JInt i) = Some i"
| "number _ = None"

fun py_eq :: "json \<Rightarrow> json \<Rightarrow> bool" where
  "py_eq JNull JNull = True"
| "py_eq (JStr s) (JStr t) = (s = t)"
| "py_eq a b = (number a \<noteq> None \<and> number a = number b)"

fun py_lt :: "json \<Rightarrow> json \<Rightarrow> pystr exn + bool" where
  "py_lt (JStr s) (JStr t) = Inr (s < t)"
| "py_lt a b =
     (case (number a, number b) of
        (Some x, Some y) \<Rightarrow> Inr (x < y)
      | _ \<Rightarrow> Inl TypeError)"

fun tuple_lt :: "json \<times> json \<Rightarrow> json \<times> json \<Rightarrow> pystr exn + bool" where
  "tuple_lt (a1, a2) (b1, b2) =
     (if \<not> py_eq a1 b1 then py_lt a1 b1
      else if \<not> py_eq a2 b2 then py_lt a2 b2
      else Inr False)"

definition comparable :: "event \<Rightarrow> event \<Rightarrow> bool" where
  "comparable x y =
     (case tuple_lt (event_key x) (event_key y) of Inr r \<Rightarrow> True | Inl e \<Rightarrow> False)"



text \<open>
  \<^verbatim>\<open>list.sort\<close> is stable, and with \<^verbatim>\<open>reverse=True\<close> it still keeps records of equal
  keys in their original order. Its result is the list in which each record stands
  after the records of a key not smaller that came before it: the insertion below. The
  library compares fewer pairs than there are, but a sort that ends has compared, directly
  or through others, every two records, so it ends without \<^verbatim>\<open>TypeError\<close> exactly
  when every two keys can be compared.
\<close>

fun insert_desc :: "event \<Rightarrow> event list \<Rightarrow> event list" where
  "insert_desc x [] = [x]"
| "insert_desc x (y # ys) =
     (if tuple_lt (event_key x) (event_key y) = Inr True then y # insert_desc x ys
      else x # y # ys)"

definition sort_reverse :: "event list \<Rightarrow> pystr exn + event list" where
  "sort_reverse xs =
     (if list_all (\<lambda>x. list_all (comparable x) xs) xs
      then Inr (foldr insert_desc xs [])
      else Inl TypeError)"

subsection \<open>\<^verbatim>\<open>scrape_labs_events\<close>\<close>

definition divisions :: "pystr list" where
  "divisions = [str ''JR'', str ''SR'', str ''MA'']"

text \<open>
  The composite ids \<^verbatim>\<open>f"{tournament_id}_{division}"\<close> of a list of tournament ids, in
  the order in which the two loops form them.
\<close>

definition composite_ids :: "pystr list \<Rightarrow> pystr list" where
  "composite_ids ids =
     concat (map (\<lambda>tournament_id. map (\<lambda>division. tournament_id @ str ''_'' @ division) divisions)
       ids)"

text \<open>Lines 221 to 233: the record of a division that was fetched.\<close>

definition new_event ::
  "pystr \<Rightarrow> pystr \<Rightarrow> pystr option \<Rightarrow> pystr \<Rightarrow> pystr \<Rightarrow> int option \<Rightarrow> pystr option \<Rightarrow> event"
where
  "new_event event_id name date game division player_count format =
     [(str ''id'', JStr event_id),
      (str ''name'', JStr (name @ str '' ('' @ division @ str '')'')),
      (str ''date'', (case date of None \<Rightarrow> JNull | Some d \<Rightarrow> JStr d)),
      (str ''game'', JStr game),
      (str ''division'', JStr division)]
     @ (case player_count of None \<Rightarrow> [] | Some n \<Rightarrow> [(str ''player_count'', JInt n)])
     @ (case format of
          None \<Rightarrow> []
        | Some f \<Rightarrow> if f \<noteq> [] then [(str ''format'', JStr f)] else [])"

text \<open>The three variables the loops update.\<close>

record progress =
  events :: "event list"
  fetch_count :: nat
  cached_count :: nat

text \<open>The inner loop, over the divisions of one tournament.\<close>

fun divisions_loop ::
  "world \<Rightarrow> pystr \<Rightarrow> (pystr \<rightharpoonup> event) \<Rightarrow> pystr \<Rightarrow> pystr option \<Rightarrow>
   pystr \<times> pystr \<times> pystr option \<Rightarrow> pystr list \<Rightarrow> progress \<Rightarrow> progress"
where
  "divisions_loop w base_url existing_events game format t [] p = p"
| "divisions_loop w base_url existing_events game format (tournament_id, name, date)
     (division # ds) p =
     (let event_id = tournament_id @ str ''_'' @ division
      in case existing_events event_id of
           Some cached_event \<Rightarrow>
             divisions_loop w base_url existing_events game format (tournament_id, name, date) ds
               (p\<lparr>events := events p @ [cached_event], cached_count := cached_count p + 1\<rparr>)
         | None \<Rightarrow>
             (let player_count = fetch_division_player_count w base_url tournament_id division;
                  event = new_event event_id name date game division player_count format
              in divisions_loop w base_url existing_events game format
                   (tournament_id, name, date) ds
                   (p\<lparr>events := events p @ [event], fetch_count := fetch_count p + 1\<rparr>)))"

text \<open>The outer loop, over \<^verbatim>\<open>zip(ids, names, dates)\<close>.\<close>

fun tournaments_loop ::
  "world \<Rightarrow> pystr \<Rightarrow> (pystr \<rightharpoonup> event) \<Rightarrow> pystr \<Rightarrow> pystr option \<Rightarrow>
   (pystr \<times> pystr \<times> pystr option) list \<Rightarrow> progress \<Rightarrow> progress"
where
  "tournaments_loop w base_url existing_events game format [] p = p"
| "tournaments_loop w base_url existing_events game format (t # ts) p =
     tournaments_loop w base_url existing_events game format ts
       (divisions_loop w base_url existing_events game format t divisions p)"

text \<open>
  What a run that ends leaves behind: the list it returns, the file it has written, and
  the two counts of its summary. A run that raises has written nothing: the file is
  opened for writing only after the sort.
\<close>

record run =
  returned :: "event list"
  written :: snapshot_file
  newly_fetched :: nat
  cached_events :: nat

definition scrape_labs_events ::
  "world \<Rightarrow> pystr \<Rightarrow> snapshot_file \<Rightarrow> pystr \<Rightarrow> pystr option \<Rightarrow> pystr exn + run"
where
  "scrape_labs_events w base_url output_file game format =
     (let base_url = (if \<not> endswith base_url (str ''/'') then base_url @ str ''/'' else base_url);
          existing_events = load_existing_events output_file
      in case fetch_html w base_url of
           Inl e \<Rightarrow> Inl e
         | Inr html \<Rightarrow>
             (case extract_labs_list_items (BeautifulSoup w) html of
                Inl e \<Rightarrow> Inl e
              | Inr (ids, names, dates) \<Rightarrow>
                  (let p = tournaments_loop w base_url existing_events game format
                             (zip ids (zip names dates))
                             \<lparr>events = [], fetch_count = 0, cached_count = 0\<rparr>
                   in case sort_reverse (events p) of
                        Inl e \<Rightarrow> Inl e
                      | Inr sorted_events \<Rightarrow>
                          Inr \<lparr>returned = sorted_events, written = Saved sorted_events,
                               newly_fetched = fetch_count p, cached_events = cached_count p\<rparr>)))"

text \<open>One choice of the five keys, for instances of the theorems below.\<close>

definition sample_keys :: "string RESULT_RATE_STRATEGY" where
  "sample_keys = \<lparr>IGNORE_TIES = ''ignore_ties'', TIES_COUNT_AS_LOSSES = ''ties_count_as_losses'',
     TIES_COUNT_AS_HALF_WIN = ''ties_count_as_half_win'', TIES_COUNT_AS_THIRD_WIN = ''ties_count_as_third_win'',
     TIES_COUNT_AS_WINS = ''ties_count_as_wins''\<rparr>"

text \<open>
  Two date fields: the range with a blank on each side of the en dash, and the same range
  with no blank around it.
\<close>

definition date_range_spaced :: pystr where
  "date_range_spaced = str ''July 12 '' @ [en_dash] @ str '' 14, 2025''"

definition date_range_tight :: pystr where
  "date_range_tight = str ''July 12'' @ [en_dash] @ str ''14, 2025''"

text \<open>
  A listing page: the document, with one list of class \<open>grid\<close> in its body, and an item
  of the list, an anchor around a block that holds the name and the date.
\<close>

definition listing_item :: "pystr \<Rightarrow> pystr \<Rightarrow> pystr \<Rightarrow> node" where
  "listing_item href name_text date_text =
     Tag (str ''li'') [] []
       [Tag (str ''a'') [] [(str ''href'', href)]
          [Tag (str ''div'') [] []
             [Tag (str ''div'') [] [] [NavigableString name_text],
              Tag (str ''div'') [] [] [NavigableString date_text]]]]"

definition listing_page :: "node list \<Rightarrow> node" where
  "listing_page items =
     Tag (str ''[document]'') [] []
       [Tag (str ''html'') [] []
          [Tag (str ''body'') [] [] [Tag (str ''ul'') [str ''grid''] [] items]]]"

text \<open>
  Two worlds for the runs. In the first the listing shows two tournaments, one with a date
  range and one without a date, and one standings page gives a count. In the second the
  listing shows tournament 0042 twice, under two names, and no standings page answers.
  With each, the snapshots that the runs on it write.
\<close>

definition sample_world :: world where
  "sample_world =
     \<lparr>http_get = (\<lambda>url.
          if url = str ''https://labs.example/'' then Inr (str ''<html>'')
          else if url = str ''https://labs.example/0042/JR/standings''
          then Inr (str ''<p>17 players</p>'')
          else Inl ClientError),
      BeautifulSoup = (\<lambda>html. listing_page
          [listing_item (str ''/0042/standings'') (str ''Regional'') date_range_tight,
           listing_item (str ''/0043/standings'') (str ''Cup'') (str ''TBD'')])\<rparr>"

definition sample_snapshot :: "event list" where
  "sample_snapshot =
     [new_event (str ''0042_SR'') (str ''Regional'') (Some (str ''2025-07-12'')) (str ''PTCG'')
        (str ''SR'') None None,
      new_event (str ''0042_MA'') (str ''Regional'') (Some (str ''2025-07-12'')) (str ''PTCG'')
        (str ''MA'') None None,
      new_event (str ''0042_JR'') (str ''Regional'') (Some (str ''2025-07-12'')) (str ''PTCG'')
        (str ''JR'') (Some 17) None,
      new_event (str ''0043_SR'') (str ''Cup'') None (str ''PTCG'') (str ''SR'') None None,
      new_event (str ''0043_MA'') (str ''Cup'') None (str ''PTCG'') (str ''MA'') None None,
      new_event (str ''0043_JR'') (str ''Cup'') None (str ''PTCG'') (str ''JR'') None None]"

definition repeated_world :: world where
  "repeated_world =
     \<lparr>http_get = (\<lambda>url.
          if url = str ''https://labs.example/'' then Inr (str ''<html>'') else Inl ClientError),
      BeautifulSoup = (\<lambda>html. listing_page
          [listing_item (str ''/0042/standings'') (str ''Regional'') date_range_tight,
           listing_item (str ''/0042/standings'') (str ''Finals'') date_range_tight])\<rparr>"

definition repeated_event :: "string \<Rightarrow> string \<Rightarrow> event" where
  "repeated_event name division =
     new_event (str ''0042_'' @ str division) (str name) (Some (str ''2025-07-12'')) (str ''PTCG'')
       (str division) None None"

definition repeated_first :: "event list" where
  "repeated_first =
     [repeated_event ''Regional'' ''SR'', repeated_event ''Finals'' ''SR'',
      repeated_event ''Regional'' ''MA'', repeated_event ''Finals'' ''MA'',
      repeated_event ''Regional'' ''JR'', repeated_event ''Finals'' ''JR'']"

definition repeated_second :: "event list" where
  "repeated_second =
     [repeated_event ''Finals'' ''SR'', repeated_event ''Finals'' ''SR'',
      repeated_event ''Finals'' ''MA'', repeated_event ''Finals'' ''MA'',
      repeated_event ''Finals'' ''JR'', repeated_event ''Finals'' ''JR'']"

section \<open>Theorems: result\_rate.py\<close>

lemma dict_of_notin:
  "k \<notin> fst ` set kvs \<Longrightarrow> dict_of kvs m k = m k"
  by (induction kvs m rule: dict_of.induct) auto

lemma strategy_keys_eq:
  "strategy_keys c = [IGNORE_TIES c, TIES_COUNT_AS_LOSSES c, TIES_COUNT_AS_HALF_WIN c,
     TIES_COUNT_AS_THIRD_WIN c, TIES_COUNT_AS_WINS c]"
  by (simp add: strategy_keys_def RESULT_RATES_def)

lemma details_unknown:
  "strategy \<notin> set (strategy_keys c) \<Longrightarrow> RESULT_RATE_STRATEGY_DETAILS c strategy = None"
  unfolding RESULT_RATE_STRATEGY_DETAILS_def
  by (subst dict_of_notin) (auto simp: strategy_keys_def RESULT_RATES_def)















text \<open>
  Claim C7. For every strategy key that is not one of the five of the table,
  \<^verbatim>\<open>calculate_result_rate\<close> raises a \<^verbatim>\<open>ValueError\<close> that names the key, whatever
  \<open>wins\<close>, \<open>losses\<close>, \<open>ties\<close> and \<open>percentage\<close> are; it returns no rate.
\<close>

theorem calculate_result_rate_unknown_strategy:
  assumes "strategy \<notin> set (strategy_keys c)"
  shows "calculate_result_rate c strategy wins losses ties percentage
           = Inl (ValueError ''Unknown result rate strategy: '' strategy)"
  by (simp add: calculate_result_rate_def details_unknown [OF assms])

theorem calculate_result_rate_unknown_strategy_witness:
  "''elo'' \<notin> set (strategy_keys sample_keys)
   \<and> calculate_result_rate sample_keys ''elo'' 3 1 2 True
       = Inl (ValueError ''Unknown result rate strategy: '' ''elo'')"
proof -
  have k: "''elo'' \<notin> set (strategy_keys sample_keys)"
    by (simp add: strategy_keys_eq sample_keys_def)
  show ?thesis using k calculate_result_rate_unknown_strategy [OF k, of 3 1 2 True] by simp
qed

text \<open>
  Claim C10. For every strategy key that is not one of the five of the table, and both
  values of \<^verbatim>\<open>formula_only\<close>, \<^verbatim>\<open>create_result_rate_label\<close> returns \<^verbatim>\<open>None\<close>: no error
  and no label.
\<close>

theorem create_result_rate_label_unknown_strategy:
  assumes "strategy \<notin> set (strategy_keys c)"
  shows "create_result_rate_label c strategy formula_only = None"
  by (simp add: create_result_rate_label_def details_unknown [OF assms])

theorem create_result_rate_label_unknown_strategy_witness:
  "''elo'' \<notin> set (strategy_keys sample_keys)
   \<and> create_result_rate_label sample_keys ''elo'' True = None
   \<and> create_result_rate_label sample_keys ''elo'' False = None"
proof -
  have k: "''elo'' \<notin> set (strategy_keys sample_keys)"
    by (simp add: strategy_keys_eq sample_keys_def)
  show ?thesis using k create_result_rate_label_unknown_strategy [OF k, of True] create_result_rate_label_unknown_strategy [OF k, of False] by simp
qed

section \<open>Theorems: the listing parser\<close>

subsection \<open>The sample fields and the sample page\<close>

lemmas eval_defs = str_def en_dash_def py_find_def slice_to_def slice_from_def date_str_def
  strptime_def months_def lower_def isspace_def whitespace_def isdecimal_def decimal_def
  decimal_zeros_def day_alternatives_def match_year_def List.map_filter_simps
  days_in_month_def is_leap_def strftime_def two_digits_def decimal_str.simps

lemma date_str_spaced: "date_str date_range_spaced = str ''July 12 , 2025''"
  by (simp add: date_range_spaced_def eval_defs)

lemma date_str_tight: "date_str date_range_tight = str ''July 12, 2025''"
  by (simp add: date_range_tight_def eval_defs)

lemma strptime_spaced:
  "strptime (str ''July 12 , 2025'')
     = Inl (ValueError ''time data does not match format'' (str ''July 12 , 2025''))"
  by (simp add: eval_defs)

lemma strptime_tight:
  "strptime (str ''July 12, 2025'') = Inr \<lparr>year = 2025, month = 7, day = 12\<rparr>"
  by (simp add: eval_defs)

lemma strftime_2025_07_12: "strftime \<lparr>year = 2025, month = 7, day = 12\<rparr> = str ''2025-07-12''"
  by (simp add: eval_defs)

lemma date_entry_spaced: "date_entry (Some date_range_spaced) = Inr None"
proof -
  have "date_range_spaced \<noteq> []" by (simp add: date_range_spaced_def)
  then show ?thesis
    by (simp add: date_entry_def parse_date_def date_str_spaced strptime_spaced)
qed

lemma date_entry_tight: "date_entry (Some date_range_tight) = Inr (Some (str ''2025-07-12''))"
proof -
  have "date_range_tight \<noteq> []" by (simp add: date_range_tight_def)
  then show ?thesis
    by (simp add: date_entry_def parse_date_def date_str_tight strptime_tight strftime_2025_07_12)
qed

lemma select_listing_page:
  "select_one_ul_grid (listing_page items) = Some (Tag (str ''ul'') [str ''grid''] [] items)"
  by (simp add: select_one_ul_grid_def listing_page_def str_def)

lemma text_fields_item:
  "find_tag (listing_item href nm dt) (str ''a'') =
     Some (Tag (str ''a'') [] [(str ''href'', href)]
          [Tag (str ''div'') [] []
             [Tag (str ''div'') [] [] [NavigableString nm],
              Tag (str ''div'') [] [] [NavigableString dt]]])"
  "text_fields (Tag (str ''a'') [] [(str ''href'', href)]
          [Tag (str ''div'') [] []
             [Tag (str ''div'') [] [] [NavigableString nm],
              Tag (str ''div'') [] [] [NavigableString dt]]]) = (Some (strip nm), Some (strip dt))"
  by (simp_all add: find_tag_def listing_item_def text_fields_def find_all_def get_text_def str_def)

subsection \<open>What a string that parses looks like\<close>

lemma find_from_single:
  "find_from [c] s k = (if c \<in> set s then int (k + length (takeWhile (\<lambda>x. x \<noteq> c) s)) else - 1)"
  by (induction s arbitrary: k) auto

lemma py_find_single:
  "py_find s [c] = (if c \<in> set s then int (length (takeWhile (\<lambda>x. x \<noteq> c) s)) else - 1)"
  by (simp add: py_find_def find_from_single)

lemma str_comma: "str '','' = [44]"
  by (simp add: str_def)

lemma not_isspace_comma: "\<not> isspace 44"
  by (simp add: isspace_def whitespace_def)

lemma not_isdecimal_comma: "\<not> isdecimal 44"
  by (simp add: isdecimal_def decimal_def decimal_zeros_def)

lemma lower_comma: "lower x = 44 \<longleftrightarrow> x = 44"
  by (auto simp: lower_def)

lemma months_no_comma: "mm \<in> set months \<Longrightarrow> 44 \<notin> set mm"
  by (auto simp: months_def str_def)

lemma match_month_Some:
  "match_month ms i s = Some (m, r) \<Longrightarrow>
   \<exists>mm\<in>set ms. r = drop (length mm) s \<and> map lower (take (length mm) s) = mm"
  by (induction ms arbitrary: i) (auto split: if_splits)

lemma match_month_split:
  assumes "match_month months i s = Some (m, r)"
  shows "\<exists>pre. s = pre @ r \<and> 44 \<notin> set pre"
proof -
  from match_month_Some [OF assms] obtain mm where
    mm: "mm \<in> set months" "r = drop (length mm) s" "map lower (take (length mm) s) = mm"
    by blast
  have "44 \<notin> set (take (length mm) s)"
  proof
    assume "44 \<in> set (take (length mm) s)"
    then have "lower 44 \<in> set (map lower (take (length mm) s))"
      by (simp only: set_map) (rule imageI)
    then have "44 \<in> set mm"
      using mm(3) by (simp add: lower_def)
    with months_no_comma [OF mm(1)] show False by simp
  qed
  moreover have "s = take (length mm) s @ r"
    using mm(2) by simp
  ultimately show ?thesis by blast
qed

lemma day_alternatives_split:
  "(d, r) \<in> set (day_alternatives s) \<Longrightarrow> \<exists>pre. s = pre @ r \<and> 44 \<notin> set pre"
  using not_isdecimal_comma
  by (cases s; cases "tl s")
     (auto simp: day_alternatives_def split: if_splits)

lemma match_year_split:
  assumes "match_year s = Some (y, rest)"
  shows "\<exists>q. s = 44 # q @ rest \<and> 44 \<notin> set q \<and> q \<noteq> []"
proof (cases s)
  case Nil
  with assms show ?thesis by (simp add: match_year_def)
next
  case (Cons c r)
  let ?ws = "takeWhile isspace r" and ?r' = "dropWhile isspace r"
  from assms Cons have c: "c = 44" and ws: "?ws \<noteq> []" and len: "4 \<le> length ?r'"
    and dec: "list_all isdecimal (take 4 ?r')" and rest: "rest = drop 4 ?r'"
    by (auto simp: match_year_def Let_def split: if_splits)
  have "44 \<notin> set ?ws"
    using not_isspace_comma by (auto dest: set_takeWhileD)
  moreover have "44 \<notin> set (take 4 ?r')"
    using dec not_isdecimal_comma by (auto simp: list_all_iff)
  moreover have "r = ?ws @ take 4 ?r' @ rest"
    using rest by simp
  ultimately show ?thesis
    using Cons c ws by (intro exI [of _ "?ws @ take 4 ?r'"]) auto
qed

lemma map_filter_Cons:
  "List.map_filter f xs = y # ys \<Longrightarrow> \<exists>x\<in>set xs. f x = Some y"
  by (induction xs) (auto simp: List.map_filter_simps split: option.splits)

lemma strptime_Inr_split:
  assumes "strptime s = Inr d"
  shows "\<exists>p q. s = p @ 44 # q \<and> 44 \<notin> set p \<and> 44 \<notin> set q \<and> q \<noteq> []"
proof -
  from assms obtain m r where mr: "match_month months 1 s = Some (m, r)"
    by (auto simp: strptime_def split: option.splits)
  let ?ws = "takeWhile isspace r" and ?r' = "dropWhile isspace r"
  let ?f = "\<lambda>(d, r''). map_option (\<lambda>(y, rest). (d, y, rest)) (match_year r'')"
  from assms mr obtain dd y tl where
    mf: "List.map_filter ?f (day_alternatives ?r') = (dd, y, []) # tl"
    by (auto simp: strptime_def Let_def split: list.splits if_splits)
  from map_filter_Cons [OF mf] obtain d' r'' where
    alt: "(d', r'') \<in> set (day_alternatives ?r')" and my: "match_year r'' = Some (y, [])"
    by auto
  from match_month_split [OF mr] obtain p1 where p1: "s = p1 @ r" "44 \<notin> set p1" by blast
  from day_alternatives_split [OF alt] obtain p2 where p2: "?r' = p2 @ r''" "44 \<notin> set p2"
    by blast
  from match_year_split [OF my] obtain q where q: "r'' = 44 # q @ []" "44 \<notin> set q" "q \<noteq> []"
    by blast
  have ws: "44 \<notin> set ?ws"
    using not_isspace_comma by (auto dest: set_takeWhileD)
  have "r = ?ws @ ?r'" by simp
  then have "s = (p1 @ ?ws @ p2) @ 44 # q"
    using p1(1) p2(1) q(1) by simp
  moreover have "44 \<notin> set (p1 @ ?ws @ p2)"
    using p1(2) ws p2(2) by simp
  ultimately show ?thesis using q(2,3) by blast
qed

lemma strptime_Inr_comma:
  assumes "strptime s = Inr d"
  shows "length (filter (\<lambda>x. x = 44) s) = 1 \<and> s \<noteq> [] \<and> last s \<noteq> 44"
proof -
  from strptime_Inr_split [OF assms] obtain p q where
    s: "s = p @ 44 # q" and p: "44 \<notin> set p" and q: "44 \<notin> set q" "q \<noteq> []"
    by blast
  have "filter (\<lambda>x. x = 44) p = []" "filter (\<lambda>x. x = 44) q = []"
    using p q(1) by (auto simp: filter_empty_conv)
  moreover have "last s = last q" using s q(2) by simp
  moreover have "last q \<in> set q" using q(2) by simp
  ultimately show ?thesis using s q(1) by auto
qed

lemma strptime_error_caught: "strptime s = Inl e \<Longrightarrow> caught e"
  by (auto simp: strptime_def Let_def split: option.splits list.splits if_splits)

subsection \<open>Date fields that do not parse\<close>

lemma takeWhile_stops: "c \<in> set t \<Longrightarrow> length (takeWhile (\<lambda>x. x \<noteq> c) t) < length t"
  by (induction t) auto

lemma date_str_no_comma:
  assumes "44 \<notin> set t"
  shows "44 \<notin> set (date_str t)"
proof -
  have "set (slice_to t i) \<subseteq> set t" "set (slice_from t j) \<subseteq> set t" for i j
    by (auto simp: slice_to_def slice_from_def dest: in_set_takeD in_set_dropD)
  then show ?thesis
    using assms by (auto simp: date_str_def Let_def)
qed

lemma slice_to_minus_one: "slice_to t (- 1) = butlast t"
proof (cases t)
  case Nil
  then show ?thesis by (simp add: slice_to_def)
next
  case (Cons a list)
  then have "nat (int (length t) + - 1) = length t - 1" by simp
  then show ?thesis
    by (simp add: slice_to_def butlast_conv_take)
qed

lemma date_str_no_dash:
  assumes "en_dash \<notin> set t" "44 \<in> set t"
  shows "date_str t = butlast t @ drop (length (takeWhile (\<lambda>x. x \<noteq> 44) t)) t"
  using assms
  by (simp add: date_str_def py_find_single str_comma slice_from_def slice_to_minus_one)

lemma date_str_fails:
  assumes "44 \<notin> set t \<or> en_dash \<notin> set t"
  shows "\<exists>e. strptime (date_str t) = Inl e"
proof (rule ccontr)
  assume "\<not> ?thesis"
  then obtain d where "strptime (date_str t) = Inr d"
    by (cases "strptime (date_str t)") auto
  from strptime_Inr_comma [OF this] have
    one: "length (filter (\<lambda>x. x = 44) (date_str t)) = 1" and
    ne: "date_str t \<noteq> []" and la: "last (date_str t) \<noteq> 44"
    by auto
  show False
  proof (cases "44 \<in> set t")
    case False
    from date_str_no_comma [OF this] have "filter (\<lambda>x. x = 44) (date_str t) = []"
      by (auto simp: filter_empty_conv)
    with one show False by simp
  next
    case True
    with assms have nd: "en_dash \<notin> set t" by simp
    from True have t: "t \<noteq> []" by auto
    let ?c = "length (takeWhile (\<lambda>x. x \<noteq> 44) t)"
    have ds: "date_str t = butlast t @ drop ?c t"
      by (rule date_str_no_dash [OF nd True])
    have c: "?c < length t"
      using True by (rule takeWhile_stops)
    have tc: "t ! ?c = 44"
      using nth_length_takeWhile [OF c] by simp
    have dr: "drop ?c t = 44 # drop (Suc ?c) t"
      using c tc by (metis Cons_nth_drop_Suc)
    have "length (filter (\<lambda>x. x = 44) (butlast t)) = 0"
      using one ds dr by simp
    then have nb: "44 \<notin> set (butlast t)"
      by (auto simp: filter_empty_conv)
    have "\<not> ?c < length t - 1"
    proof
      assume "?c < length t - 1"
      then have "butlast t ! ?c = t ! ?c" "?c < length (butlast t)"
        by (simp_all add: nth_butlast)
      then have "t ! ?c \<in> set (butlast t)"
        by (metis nth_mem)
      with tc nb show False by simp
    qed
    with c have "Suc ?c = length t" by linarith
    then have "drop ?c t = [44]"
      using dr by simp
    with ds have "last (date_str t) = 44" by simp
    with la show False by simp
  qed
qed

lemma date_entry_no_parse:
  assumes "strptime (date_str t) = Inl e"
  shows "date_entry (Some t) = Inr None"
  using assms strptime_error_caught [OF assms]
  by (simp add: date_entry_def parse_date_def)

lemma date_entry_returns: "\<exists>d. date_entry field = Inr d"
proof (cases field)
  case None
  then show ?thesis by (simp add: date_entry_def)
next
  case (Some t)
  show ?thesis
  proof (cases "strptime (date_str t)")
    case (Inl e)
    from date_entry_no_parse [OF this] Some show ?thesis by simp
  next
    case (Inr d)
    with Some show ?thesis by (simp add: date_entry_def parse_date_def)
  qed
qed

lemma items_loop_step:
  assumes "find_tag li (str ''a'') = Some a" "attr a (str ''href'') = Some href"
    "2 \<le> length (split href 47)" "text_fields a = (text1, text2)" "date_entry text2 = Inr d"
  shows "items_loop (li # lis) (ids, names, dates) =
         items_loop lis (ids @ [split href 47 ! 1], names @ [or_else text1 (str ''Unknown Event'')],
           dates @ [d])"
  using assms by (simp add: Let_def)

lemma strip_samples:
  "strip date_range_spaced = date_range_spaced" "strip date_range_tight = date_range_tight"
  "strip (str ''Regional'') = str ''Regional''" "strip (str ''July 12, 2025'') = str ''July 12, 2025''"
  by (simp_all add: strip_def date_range_spaced_def date_range_tight_def str_def en_dash_def
      isspace_def whitespace_def)

lemma split_sample: "split (str ''/0042/standings'') 47 = [[], str ''0042'', str ''standings'']"
  by (simp add: str_def)

lemma attr_anchor:
  "attr (Tag (str ''a'') [] [(str ''href'', href)] cs) (str ''href'') = Some href"
  by simp

lemma extract_one_item:
  assumes "date_entry (Some (strip dt)) = Inr d" "strip nm \<noteq> []"
  shows "extract_labs_list_items (\<lambda>html. listing_page [listing_item (str ''/0042/standings'') nm dt]) html
     = Inr ([str ''0042''], [strip nm], [d])"
proof -
  have fa: "find_all (Tag (str ''ul'') [str ''grid''] [] [listing_item (str ''/0042/standings'') nm dt])
      (str ''li'') = [listing_item (str ''/0042/standings'') nm dt]"
    by (simp add: find_all_def listing_item_def)
  have "items_loop [listing_item (str ''/0042/standings'') nm dt] ([], [], [])
     = items_loop [] ([] @ [split (str ''/0042/standings'') 47 ! 1],
         [] @ [or_else (Some (strip nm)) (str ''Unknown Event'')], [] @ [d])"
    by (rule items_loop_step [OF text_fields_item(1) attr_anchor _ text_fields_item(2) assms(1)])
       (simp add: split_sample)
  then show ?thesis
    using assms(2)
    by (simp add: extract_labs_list_items_def select_listing_page fa split_sample or_else_def)
qed

text \<open>
  Claim C3. For every listing item whose date field is malformed (it has no comma, or no
  en dash, or the text spliced from it does not parse as month, day and year), the
  parser records a null date for that item: the entry is \<^verbatim>\<open>None\<close>, and the loop goes on
  to the next item with the id, the name and \<^verbatim>\<open>None\<close> appended. And the
  date step raises for no field at all: its result is always a value.
\<close>

theorem malformed_date_is_null:
  "(44 \<notin> set text2 \<or> en_dash \<notin> set text2 \<or> (\<exists>e. strptime (date_str text2) = Inl e) \<longrightarrow>
      date_entry (Some text2) = Inr None
      \<and> (find_tag li (str ''a'') = Some a \<and> attr a (str ''href'') = Some href
           \<and> 2 \<le> length (split href 47) \<and> text_fields a = (text1, Some text2) \<longrightarrow>
         items_loop (li # lis) (ids, names, dates) =
         items_loop lis (ids @ [split href 47 ! 1],
           names @ [or_else text1 (str ''Unknown Event'')], dates @ [None])))
   \<and> (\<exists>d. date_entry field = Inr d)"
proof (intro conjI impI)
  assume "44 \<notin> set text2 \<or> en_dash \<notin> set text2 \<or> (\<exists>e. strptime (date_str text2) = Inl e)"
  then have "\<exists>e. strptime (date_str text2) = Inl e"
    using date_str_fails [of text2] by (elim disjE) simp_all
  then obtain e where "strptime (date_str text2) = Inl e" ..
  from date_entry_no_parse [OF this]
  show n: "date_entry (Some text2) = Inr None" .
  assume "find_tag li (str ''a'') = Some a \<and> attr a (str ''href'') = Some href
           \<and> 2 \<le> length (split href 47) \<and> text_fields a = (text1, Some text2)"
  then have f: "find_tag li (str ''a'') = Some a" "attr a (str ''href'') = Some href"
    "2 \<le> length (split href 47)" "text_fields a = (text1, Some text2)"
    by simp_all
  show "items_loop (li # lis) (ids, names, dates) =
         items_loop lis (ids @ [split href 47 ! 1],
           names @ [or_else text1 (str ''Unknown Event'')], dates @ [None])"
    by (rule items_loop_step [OF f n])
next
  show "\<exists>d. date_entry field = Inr d" by (rule date_entry_returns)
qed

theorem malformed_date_is_null_witness:
  "en_dash \<notin> set (str ''July 12, 2025'')
   \<and> date_entry (Some (str ''July 12, 2025'')) = Inr None
   \<and> items_loop [listing_item (str ''/0042/standings'') (str ''Regional'') (str ''July 12, 2025'')]
        ([], [], []) = Inr ([str ''0042''], [str ''Regional''], [None])"
proof -
  let ?t = "str ''July 12, 2025''" and ?href = "str ''/0042/standings''"
  let ?li = "listing_item ?href (str ''Regional'') ?t"
  let ?a = "Tag (str ''a'') [] [(str ''href'', ?href)]
          [Tag (str ''div'') [] []
             [Tag (str ''div'') [] [] [NavigableString (str ''Regional'')],
              Tag (str ''div'') [] [] [NavigableString ?t]]]"
  have nd: "en_dash \<notin> set ?t"
    by (simp add: str_def en_dash_def)
  have f: "find_tag ?li (str ''a'') = Some ?a \<and> attr ?a (str ''href'') = Some ?href
           \<and> 2 \<le> length (split ?href 47) \<and> text_fields ?a = (Some (str ''Regional''), Some ?t)"
    using text_fields_item [of ?href "str ''Regional''" ?t]
    by (simp add: strip_samples split_sample)
  note c = malformed_date_is_null [of ?t ?li ?a ?href "Some (str ''Regional'')" "[]" "[]" "[]" "[]"]
  from c nd have n: "date_entry (Some ?t) = Inr None"
    by simp
  from c nd f have "items_loop [?li] ([], [], []) =
      items_loop [] ([] @ [split ?href 47 ! 1],
        [] @ [or_else (Some (str ''Regional'')) (str ''Unknown Event'')], [] @ [None])"
    by simp
  then have "items_loop [?li] ([], [], []) = Inr ([str ''0042''], [str ''Regional''], [None])"
    by (simp add: split_sample or_else_def) (simp add: str_def)
  with nd n show ?thesis by simp
qed

subsection \<open>The example of the date range\<close>

text \<open>
  Claim C2 as stated fails. The date field \<open>date_range_spaced\<close> is \<open>July 12\<close>, a blank,
  an en dash, a blank and \<open>14, 2025\<close>. The text before the dash ends in the first
  blank, so the spliced string is \<open>July 12 , 2025\<close> with a blank before the comma; the
  format allows nothing between the day and the comma, and the parser records
  \<^verbatim>\<open>None\<close>, not \<open>2025-07-12\<close>.
\<close>

theorem date_range_spaced_is_null:
  "date_entry (Some date_range_spaced) = Inr None
   \<and> date_entry (Some date_range_spaced) \<noteq> Inr (Some (str ''2025-07-12''))
   \<and> extract_labs_list_items
        (\<lambda>html. listing_page [listing_item (str ''/0042/standings'') (str ''Regional'') date_range_spaced])
        [] = Inr ([str ''0042''], [str ''Regional''], [None])"
proof -
  have "extract_labs_list_items
        (\<lambda>html. listing_page [listing_item (str ''/0042/standings'') (str ''Regional'') date_range_spaced])
        [] = Inr ([str ''0042''], [strip (str ''Regional'')], [None])"
    by (rule extract_one_item) (simp_all add: strip_samples date_entry_spaced, simp add: str_def)
  then show ?thesis
    by (simp add: date_entry_spaced strip_samples)
qed

text \<open>
  Claim C2, amended. For the date field \<open>date_range_tight\<close>, which is \<open>July 12\<close>, an
  en dash and \<open>14, 2025\<close> with no blank around the dash, the spliced string is
  \<open>July 12, 2025\<close> and the parser yields the date \<open>2025-07-12\<close>. For the field with
  a blank on each side of the en dash, the spliced string is \<open>July 12 , 2025\<close> and the
  date is null.
\<close>

theorem date_range_tight_normalized:
  "date_str date_range_tight = str ''July 12, 2025''
   \<and> date_entry (Some date_range_tight) = Inr (Some (str ''2025-07-12''))
   \<and> extract_labs_list_items
        (\<lambda>html. listing_page [listing_item (str ''/0042/standings'') (str ''Regional'') date_range_tight])
        [] = Inr ([str ''0042''], [str ''Regional''], [Some (str ''2025-07-12'')])
   \<and> date_str date_range_spaced = str ''July 12 , 2025''
   \<and> date_entry (Some date_range_spaced) = Inr None"
proof -
  have "extract_labs_list_items
        (\<lambda>html. listing_page [listing_item (str ''/0042/standings'') (str ''Regional'') date_range_tight])
        [] = Inr ([str ''0042''], [strip (str ''Regional'')], [Some (str ''2025-07-12'')])"
    by (rule extract_one_item) (simp_all add: strip_samples date_entry_tight, simp add: str_def)
  then show ?thesis
    by (simp add: date_entry_spaced date_entry_tight date_str_tight date_str_spaced strip_samples)
qed

subsection \<open>The list container\<close>

lemma items_loop_returns: "\<exists>l. items_loop lis acc = Inr l"
proof (induction lis arbitrary: acc)
  case Nil
  show ?case by (intro exI [of _ acc]) simp
next
  case (Cons li lis)
  obtain ids names dates where acc: "acc = (ids, names, dates)"
    by (rule prod_cases3)
  show ?case
  proof (cases "find_tag li (str ''a'')")
    case None
    with Cons [of acc] acc show ?thesis by simp
  next
    case (Some a)
    note a = this
    show ?thesis
    proof (cases "attr a (str ''href'')")
      case None
      with Cons [of acc] acc a show ?thesis by simp
    next
      case (Some href)
      note href = this
      show ?thesis
      proof (cases "length (split href 47) < 2")
        case True
        with Cons [of acc] acc a href show ?thesis by simp
      next
        case False
        obtain text1 text2 where tf: "text_fields a = (text1, text2)"
          by (cases "text_fields a") auto
        obtain d where d: "date_entry text2 = Inr d"
          using date_entry_returns by blast
        from False have "2 \<le> length (split href 47)" by simp
        then have step: "items_loop (li # lis) acc =
            items_loop lis (ids @ [split href 47 ! 1],
              names @ [or_else text1 (str ''Unknown Event'')], dates @ [d])"
          unfolding acc by (rule items_loop_step [OF a href _ tf d])
        show ?thesis
          unfolding step by (rule Cons)
      qed
    qed
  qed
qed

lemma items_loop_none_qualify:
  assumes "\<forall>li\<in>set lis. \<forall>a href. find_tag li (str ''a'') = Some a \<longrightarrow>
             attr a (str ''href'') = Some href \<longrightarrow> length (split href 47) < 2"
  shows "items_loop lis acc = Inr acc"
  using assms
proof (induction lis)
  case Nil
  show ?case by simp
next
  case (Cons li lis)
  obtain ids names dates where acc: "acc = (ids, names, dates)"
    by (rule prod_cases3)
  from Cons.prems have rest: "items_loop lis acc = Inr acc"
    by (intro Cons.IH) simp
  from Cons.prems have here: "find_tag li (str ''a'') = Some a \<Longrightarrow>
       attr a (str ''href'') = Some href \<Longrightarrow> length (split href 47) < 2" for a href
    by simp
  show ?case
    using rest here unfolding acc
    by (simp split: option.splits)
qed

lemma select_one_None:
  "select_one_ul_grid soup = None \<longleftrightarrow>
   \<not> (\<exists>el\<in>set (descendants soup).
         is_tag el \<and> tag_name el = str ''ul'' \<and> str ''grid'' \<in> set (tag_classes el))"
  by (auto simp: select_one_ul_grid_def find_None_iff)

text \<open>
  Claim C4. The listing parser raises its \<^verbatim>\<open>ValueError\<close> for every document that has no
  \<open>ul\<close> element of class \<open>grid\<close>. For every document that has one, it returns without
  raising, and when none of the list's \<open>li\<close> children qualifies (none has an anchor with
  an \<open>href\<close> of two or more segments) it returns three empty lists.
\<close>

theorem missing_container_is_fatal:
  "(\<not> (\<exists>el\<in>set (descendants (parser page_html)).
         is_tag el \<and> tag_name el = str ''ul'' \<and> str ''grid'' \<in> set (tag_classes el)) \<longrightarrow>
      extract_labs_list_items parser page_html = Inl (ValueError ''No <ul class='grid'> found'' []))
   \<and> (select_one_ul_grid (parser page_html) = Some ul \<longrightarrow>
        (\<exists>l. extract_labs_list_items parser page_html = Inr l)
        \<and> ((\<forall>li\<in>set (find_all ul (str ''li'')). \<forall>a href.
               find_tag li (str ''a'') = Some a \<longrightarrow> attr a (str ''href'') = Some href \<longrightarrow>
               length (split href 47) < 2) \<longrightarrow>
           extract_labs_list_items parser page_html = Inr ([], [], [])))"
proof (intro conjI impI)
  assume "\<not> (\<exists>el\<in>set (descendants (parser page_html)).
         is_tag el \<and> tag_name el = str ''ul'' \<and> str ''grid'' \<in> set (tag_classes el))"
  then have "select_one_ul_grid (parser page_html) = None"
    by (simp add: select_one_None)
  then show "extract_labs_list_items parser page_html
      = Inl (ValueError ''No <ul class='grid'> found'' [])"
    by (simp add: extract_labs_list_items_def)
next
  assume ul: "select_one_ul_grid (parser page_html) = Some ul"
  from items_loop_returns [of "find_all ul (str ''li'')" "([], [], [])"]
  show "\<exists>l. extract_labs_list_items parser page_html = Inr l"
    using ul by (simp add: extract_labs_list_items_def)
  assume "\<forall>li\<in>set (find_all ul (str ''li'')). \<forall>a href.
               find_tag li (str ''a'') = Some a \<longrightarrow> attr a (str ''href'') = Some href \<longrightarrow>
               length (split href 47) < 2"
  from items_loop_none_qualify [OF this, of "([], [], [])"]
  show "extract_labs_list_items parser page_html = Inr ([], [], [])"
    using ul by (simp add: extract_labs_list_items_def)
qed

theorem missing_container_is_fatal_witness:
  "\<not> (\<exists>el\<in>set (descendants (Tag (str ''[document]'') [] [] [Tag (str ''ul'') [str ''list''] [] []])).
         is_tag el \<and> tag_name el = str ''ul'' \<and> str ''grid'' \<in> set (tag_classes el))
   \<and> extract_labs_list_items (\<lambda>html. Tag (str ''[document]'') [] [] [Tag (str ''ul'') [str ''list''] [] []]) []
       = Inl (ValueError ''No <ul class='grid'> found'' [])
   \<and> select_one_ul_grid (listing_page [Tag (str ''li'') [] [] [NavigableString (str ''soon'')]])
       = Some (Tag (str ''ul'') [str ''grid''] [] [Tag (str ''li'') [] [] [NavigableString (str ''soon'')]])
   \<and> extract_labs_list_items (\<lambda>html. listing_page [Tag (str ''li'') [] [] [NavigableString (str ''soon'')]]) []
       = Inr ([], [], [])"
proof -
  let ?doc = "Tag (str ''[document]'') [] [] [Tag (str ''ul'') [str ''list''] [] []]"
  let ?li = "Tag (str ''li'') [] [] [NavigableString (str ''soon'')]"
  let ?ul = "Tag (str ''ul'') [str ''grid''] [] [?li]"
  have a: "\<not> (\<exists>el\<in>set (descendants ?doc).
         is_tag el \<and> tag_name el = str ''ul'' \<and> str ''grid'' \<in> set (tag_classes el))"
    by (simp add: str_def)
  have s: "select_one_ul_grid (listing_page [?li]) = Some ?ul"
    by (rule select_listing_page)
  have q: "\<forall>li\<in>set (find_all ?ul (str ''li'')). \<forall>a href.
               find_tag li (str ''a'') = Some a \<longrightarrow> attr a (str ''href'') = Some href \<longrightarrow>
               length (split href 47) < 2"
    by (simp add: find_all_def find_tag_def)
  from missing_container_is_fatal [of "\<lambda>html. ?doc" "[]"] a
  have 1: "extract_labs_list_items (\<lambda>html. ?doc) [] = Inl (ValueError ''No <ul class='grid'> found'' [])"
    by simp
  from missing_container_is_fatal [of "\<lambda>html. listing_page [?li]" "[]" ?ul] s q
  have 2: "extract_labs_list_items (\<lambda>html. listing_page [?li]) [] = Inr ([], [], [])"
    by simp
  from a 1 s 2 show ?thesis by (intro conjI)
qed

section \<open>Theorems: the orchestrator\<close>

subsection \<open>The sort\<close>





lemma set_insert_desc: "set (insert_desc x ys) = insert x (set ys)"
  by (induction ys) auto

lemma set_sort: "set (foldr insert_desc xs []) = set xs"
  by (induction xs) (simp_all add: set_insert_desc)

lemma length_insert_desc: "length (insert_desc x ys) = Suc (length ys)"
  by (induction ys) auto

lemma length_sort: "length (foldr insert_desc xs []) = length xs"
  by (induction xs) (simp_all add: length_insert_desc)

lemma distinct_map_insert_desc:
  "distinct (map f (insert_desc x ys)) \<longleftrightarrow> f x \<notin> f ` set ys \<and> distinct (map f ys)"
  by (induction ys) (auto simp: set_insert_desc)

lemma distinct_map_sort: "distinct (map f (foldr insert_desc xs [])) \<longleftrightarrow> distinct (map f xs)"
  by (induction xs) (simp_all add: distinct_map_insert_desc set_sort)



lemma sort_reverse_Inr:
  "sort_reverse xs = Inr ys \<longleftrightarrow>
   (\<forall>x\<in>set xs. \<forall>y\<in>set xs. comparable x y) \<and> ys = foldr insert_desc xs []"
  by (auto simp: sort_reverse_def list_all_iff)


subsection \<open>The loops and the dictionary of the snapshot\<close>

lemma new_event_id:
  "map_of (new_event event_id name date game division player_count format) (str ''id'')
     = Some (JStr event_id)"
  by (simp add: new_event_def)

lemma divisions_loop_ids:
  assumes "\<And>i e. existing_events i = Some e \<Longrightarrow> map_of e (str ''id'') = Some (JStr i)"
  shows "map (\<lambda>e. map_of e (str ''id''))
           (events (divisions_loop w base_url existing_events game format (tid, name, date) ds p))
         = map (\<lambda>e. map_of e (str ''id'')) (events p)
           @ map (\<lambda>division. Some (JStr (tid @ str ''_'' @ division))) ds"
proof (induction ds arbitrary: p)
  case Nil
  show ?case by simp
next
  case (Cons d ds)
  show ?case
  proof (cases "existing_events (tid @ str ''_'' @ d)")
    case None
    then show ?thesis
      by (simp add: Cons Let_def new_event_id)
  next
    case (Some e)
    with assms [OF Some] show ?thesis
      by (simp add: Cons Let_def)
  qed
qed

lemma tournaments_loop_ids:
  assumes "\<And>i e. existing_events i = Some e \<Longrightarrow> map_of e (str ''id'') = Some (JStr i)"
  shows "map (\<lambda>e. map_of e (str ''id''))
           (events (tournaments_loop w base_url existing_events game format ts p))
         = map (\<lambda>e. map_of e (str ''id'')) (events p)
           @ map (\<lambda>i. Some (JStr i)) (composite_ids (map fst ts))"
proof (induction ts arbitrary: p)
  case Nil
  show ?case by (simp add: composite_ids_def)
next
  case (Cons t ts)
  obtain tid name date where t: "t = (tid, name, date)"
    by (rule prod_cases3)
  show ?case
    unfolding t
    by (simp add: Cons divisions_loop_ids [OF assms] composite_ids_def)
qed

lemma divisions_loop_hits:
  assumes "\<forall>division\<in>set ds. existing_events (tid @ str ''_'' @ division) \<noteq> None"
  shows "events (divisions_loop w base_url existing_events game format (tid, name, date) ds p)
           = events p @ map (\<lambda>division. the (existing_events (tid @ str ''_'' @ division))) ds
       \<and> fetch_count (divisions_loop w base_url existing_events game format (tid, name, date) ds p)
           = fetch_count p
       \<and> cached_count (divisions_loop w base_url existing_events game format (tid, name, date) ds p)
           = cached_count p + length ds"
  using assms
proof (induction ds arbitrary: p)
  case Nil
  show ?case by simp
next
  case (Cons d ds)
  from Cons.prems obtain e where e: "existing_events (tid @ str ''_'' @ d) = Some e"
    by auto
  from Cons.prems have "\<forall>division\<in>set ds. existing_events (tid @ str ''_'' @ division) \<noteq> None"
    by simp
  note ih = Cons.IH [OF this]
  show ?case
    by (simp add: e Let_def ih)
qed

lemma composite_ids_Cons:
  "composite_ids (tid # ids)
     = map (\<lambda>division. tid @ str ''_'' @ division) divisions @ composite_ids ids"
  by (simp add: composite_ids_def)

lemma tournaments_loop_hits:
  assumes "\<forall>i\<in>set (composite_ids (map fst ts)). existing_events i \<noteq> None"
  shows "events (tournaments_loop w base_url existing_events game format ts p)
           = events p @ map (\<lambda>i. the (existing_events i)) (composite_ids (map fst ts))
       \<and> fetch_count (tournaments_loop w base_url existing_events game format ts p) = fetch_count p
       \<and> cached_count (tournaments_loop w base_url existing_events game format ts p)
           = cached_count p + length (composite_ids (map fst ts))"
  using assms
proof (induction ts arbitrary: p)
  case Nil
  show ?case by (simp add: composite_ids_def)
next
  case (Cons t ts)
  obtain tid name date where t: "t = (tid, name, date)"
    by (rule prod_cases3)
  from Cons.prems have here:
    "\<forall>division\<in>set divisions. existing_events (tid @ str ''_'' @ division) \<noteq> None"
    and rest: "\<forall>i\<in>set (composite_ids (map fst ts)). existing_events i \<noteq> None"
    by (simp_all add: t composite_ids_Cons)
  note d = divisions_loop_hits [OF here, of w base_url game format name date p]
  note ih = Cons.IH [OF rest, of "divisions_loop w base_url existing_events game format
      (tid, name, date) divisions p"]
  show ?case
    unfolding t
    by (simp add: ih d composite_ids_Cons)
qed

lemma dict_of_eq: "dict_of kvs m = m ++ map_of (rev kvs)"
proof (induction kvs arbitrary: m)
  case Nil
  show ?case by simp
next
  case (Cons kv kvs)
  obtain k v where kv: "kv = (k, v)" by (cases kv)
  have a: "m(k \<mapsto> v) = m ++ map_of [(k, v)]"
    by simp
  have "dict_of (kv # kvs) m = m(k \<mapsto> v) ++ map_of (rev kvs)"
    unfolding kv by (simp only: dict_of.simps Cons)
  also have "\<dots> = m ++ (map_of [(k, v)] ++ map_of (rev kvs))"
    by (simp only: a map_add_assoc)
  also have "\<dots> = m ++ map_of (rev kvs @ [(k, v)])"
    by (simp only: map_of_append)
  also have "rev kvs @ [(k, v)] = rev (kv # kvs)"
    unfolding kv by simp
  finally show ?case .
qed

lemma dict_of_Some:
  "dict_of kvs Map.empty k = Some v \<Longrightarrow> (k, v) \<in> set kvs"
  by (auto simp: dict_of_eq dest: map_of_SomeD)

lemma dict_of_defined:
  "k \<in> fst ` set kvs \<Longrightarrow> dict_of kvs Map.empty k \<noteq> None"
  by (simp add: dict_of_eq map_of_eq_None_iff)

lemma dict_of_distinct:
  "distinct (map fst kvs) \<Longrightarrow> (k, v) \<in> set kvs \<Longrightarrow> dict_of kvs Map.empty k = Some v"
  by (simp add: dict_of_eq distinct_rev rev_map [symmetric])

lemma set_map_filter: "set (List.map_filter f xs) = {y. \<exists>x\<in>set xs. f x = Some y}"
  by (induction xs) (auto split: option.splits)

lemma load_entry:
  assumes "load_existing_events output_file i = Some e"
  shows "map_of e (str ''id'') = Some (JStr i)"
    and "\<And>xs. output_file = Saved xs \<Longrightarrow> e \<in> set xs"
proof -
  from assms obtain xs where f: "output_file = Saved xs"
    by (cases output_file) (simp_all add: load_existing_events_def)
  let ?g = "\<lambda>event. case map_of event (str ''id'') of
                           Some (JStr i) \<Rightarrow> Some (i, event)
                         | _ \<Rightarrow> None"
  from assms f have "(i, e) \<in> set (List.map_filter ?g xs)"
    by (simp add: load_existing_events_def dict_of_Some)
  then obtain x where x: "x \<in> set xs" "?g x = Some (i, e)"
    by (auto simp: set_map_filter)
  from x(2) have "x = e \<and> map_of e (str ''id'') = Some (JStr i)"
    by (auto split: option.splits json.splits)
  with x(1) f show "map_of e (str ''id'') = Some (JStr i)"
    and "\<And>xs. output_file = Saved xs \<Longrightarrow> e \<in> set xs"
    by auto
qed

lemma load_defined:
  assumes "e \<in> set xs" "map_of e (str ''id'') = Some (JStr i)"
  shows "load_existing_events (Saved xs) i \<noteq> None"
proof -
  let ?g = "\<lambda>event. case map_of event (str ''id'') of
                           Some (JStr i) \<Rightarrow> Some (i, event)
                         | _ \<Rightarrow> None"
  from assms have "?g e = Some (i, e)" by simp
  with assms(1) have "(i, e) \<in> set (List.map_filter ?g xs)"
    by (auto simp: set_map_filter)
  then have "i \<in> fst ` set (List.map_filter ?g xs)"
    by (rule image_eqI [rotated]) simp
  then show ?thesis
    by (simp add: load_existing_events_def dict_of_defined)
qed

lemma distinct_keys:
  assumes "distinct (map (\<lambda>e. map_of e (str ''id'')) xs)"
  shows "distinct (map fst (List.map_filter
           (\<lambda>event. case map_of event (str ''id'') of
                           Some (JStr i) \<Rightarrow> Some (i, event)
                         | _ \<Rightarrow> None) xs))"
  using assms
proof (induction xs)
  case Nil
  show ?case by (simp add: List.map_filter_simps)
next
  case (Cons x xs)
  let ?g = "\<lambda>event. case map_of event (str ''id'') of
                           Some (JStr i) \<Rightarrow> Some (i, event)
                         | _ \<Rightarrow> None"
  from Cons have ih: "distinct (map fst (List.map_filter ?g xs))"
    by simp
  show ?case
  proof (cases "?g x")
    case None
    with ih show ?thesis by (simp add: List.map_filter_simps)
  next
    case (Some kv)
    then have kv: "kv = (fst kv, x)" and idx: "map_of x (str ''id'') = Some (JStr (fst kv))"
      by (auto split: option.splits json.splits)
    have "fst kv \<notin> fst ` set (List.map_filter ?g xs)"
    proof
      assume "fst kv \<in> fst ` set (List.map_filter ?g xs)"
      then obtain e where "(fst kv, e) \<in> set (List.map_filter ?g xs)"
        by auto
      then obtain y where y: "y \<in> set xs" "?g y = Some (fst kv, e)"
        by (auto simp: set_map_filter)
      from y(2) have "map_of y (str ''id'') = Some (JStr (fst kv))"
        by (auto split: option.splits json.splits)
      with idx y(1) have "map_of x (str ''id'') \<in> (\<lambda>e. map_of e (str ''id'')) ` set xs"
        by (metis (no_types, lifting) image_eqI)
      with Cons.prems show False by simp
    qed
    with ih Some show ?thesis
      by (simp add: List.map_filter_simps)
  qed
qed

lemma load_distinct:
  assumes "distinct (map (\<lambda>e. map_of e (str ''id'')) xs)" "e \<in> set xs"
    "map_of e (str ''id'') = Some (JStr i)"
  shows "load_existing_events (Saved xs) i = Some e"
proof -
  let ?g = "\<lambda>event. case map_of event (str ''id'') of
                           Some (JStr i) \<Rightarrow> Some (i, event)
                         | _ \<Rightarrow> None"
  from assms have "?g e = Some (i, e)" by simp
  with assms(2) have "(i, e) \<in> set (List.map_filter ?g xs)"
    by (auto simp: set_map_filter)
  from dict_of_distinct [OF distinct_keys [OF assms(1)] this]
  show ?thesis
    by (simp add: load_existing_events_def)
qed

lemma items_loop_lengths:
  assumes "items_loop lis (ids, names, dates) = Inr (ids', names', dates')"
    "length names = length ids" "length dates = length ids"
  shows "length names' = length ids' \<and> length dates' = length ids'"
  using assms
proof (induction lis arbitrary: ids names dates)
  case Nil
  then show ?case by simp
next
  case (Cons li lis)
  show ?case
  proof (cases "find_tag li (str ''a'')")
    case None
    with Cons.prems Cons.IH [of ids names dates] show ?thesis by simp
  next
    case (Some a)
    note a = this
    show ?thesis
    proof (cases "attr a (str ''href'')")
      case None
      with Cons.prems Cons.IH [of ids names dates] a show ?thesis by simp
    next
      case (Some href)
      note href = this
      show ?thesis
      proof (cases "length (split href 47) < 2")
        case True
        with Cons.prems Cons.IH [of ids names dates] a href show ?thesis by simp
      next
        case False
        obtain text1 text2 where tf: "text_fields a = (text1, text2)"
          by (cases "text_fields a") auto
        obtain d where d: "date_entry text2 = Inr d"
          using date_entry_returns by blast
        from False have "2 \<le> length (split href 47)" by simp
        from items_loop_step [OF a href this tf d, of lis ids names dates] Cons.prems(1)
        have "items_loop lis (ids @ [split href 47 ! 1],
              names @ [or_else text1 (str ''Unknown Event'')], dates @ [d])
              = Inr (ids', names', dates')"
          by simp
        then show ?thesis
          by (rule Cons.IH) (simp_all add: Cons.prems)
      qed
    qed
  qed
qed

lemma extract_lengths:
  assumes "extract_labs_list_items parser page_html = Inr (ids, names, dates)"
  shows "map fst (zip ids (zip names dates)) = ids"
proof -
  from assms obtain ul where
    "items_loop (find_all ul (str ''li'')) ([], [], []) = Inr (ids, names, dates)"
    by (auto simp: extract_labs_list_items_def Let_def split: option.splits)
  from items_loop_lengths [OF this] show ?thesis
    by simp
qed

lemma composite_id_inj:
  assumes "d \<in> set divisions" "d' \<in> set divisions"
    "tid @ str ''_'' @ d = tid' @ str ''_'' @ d'"
  shows "tid = tid' \<and> d = d'"
proof -
  from assms(1,2) have "length (str ''_'' @ d) = length (str ''_'' @ d')"
    by (auto simp: divisions_def str_def)
  with assms(3) show ?thesis
    by (simp add: append_eq_append_conv)
qed

lemma set_composite_ids:
  "set (composite_ids ids) = (\<Union>tid\<in>set ids. (\<lambda>d. tid @ str ''_'' @ d) ` set divisions)"
  by (simp add: composite_ids_def)

lemma distinct_composite_ids:
  assumes "distinct ids"
  shows "distinct (composite_ids ids)"
  using assms
proof (induction ids)
  case Nil
  show ?case by (simp add: composite_ids_def)
next
  case (Cons tid ids)
  have d: "distinct divisions"
    by (simp add: divisions_def str_def)
  have "inj_on (\<lambda>d. tid @ str ''_'' @ d) (set divisions)"
    by (rule inj_onI) simp
  with d have 1: "distinct (map (\<lambda>d. tid @ str ''_'' @ d) divisions)"
    by (simp add: distinct_map)
  have 2: "set (map (\<lambda>d. tid @ str ''_'' @ d) divisions) \<inter> set (composite_ids ids) = {}"
  proof (rule ccontr)
    assume "\<not> ?thesis"
    then obtain x where "x \<in> set (map (\<lambda>d. tid @ str ''_'' @ d) divisions)"
      "x \<in> set (composite_ids ids)"
      by auto
    then obtain d tid' d' where "d \<in> set divisions" "x = tid @ str ''_'' @ d"
      "tid' \<in> set ids" "d' \<in> set divisions" "x = tid' @ str ''_'' @ d'"
      by (auto simp: set_composite_ids)
    with composite_id_inj [of d d' tid tid'] have "tid \<in> set ids"
      by simp
    with Cons.prems show False by simp
  qed
  from Cons have "distinct (composite_ids ids)" by simp
  with 1 2 show ?case
    by (simp add: composite_ids_Cons)
qed

lemma scrape_Inr:
  assumes "scrape_labs_events w base_url output_file game format = Inr r"
  obtains html ids names dates p where
    "http_get w (if \<not> endswith base_url (str ''/'') then base_url @ str ''/'' else base_url) = Inr html"
    "extract_labs_list_items (BeautifulSoup w) html = Inr (ids, names, dates)"
    "p = tournaments_loop w (if \<not> endswith base_url (str ''/'') then base_url @ str ''/'' else base_url)
           (load_existing_events output_file) game format (zip ids (zip names dates))
           \<lparr>events = [], fetch_count = 0, cached_count = 0\<rparr>"
    "sort_reverse (events p) = Inr (returned r)"
    "written r = Saved (returned r)"
    "newly_fetched r = fetch_count p" "cached_events r = cached_count p"
  using assms
  unfolding scrape_labs_events_def Let_def fetch_html_def
  by (auto split: sum.splits prod.splits)

lemma scrape_Inr_conv:
  assumes "http_get w (if \<not> endswith base_url (str ''/'') then base_url @ str ''/'' else base_url) = Inr html"
    "extract_labs_list_items (BeautifulSoup w) html = Inr (ids, names, dates)"
    "sort_reverse (events (tournaments_loop w
        (if \<not> endswith base_url (str ''/'') then base_url @ str ''/'' else base_url)
           (load_existing_events output_file) game format (zip ids (zip names dates))
           \<lparr>events = [], fetch_count = 0, cached_count = 0\<rparr>)) = Inr out"
  shows "scrape_labs_events w base_url output_file game format =
     Inr \<lparr>returned = out, written = Saved out,
       newly_fetched = fetch_count (tournaments_loop w
        (if \<not> endswith base_url (str ''/'') then base_url @ str ''/'' else base_url)
           (load_existing_events output_file) game format (zip ids (zip names dates))
           \<lparr>events = [], fetch_count = 0, cached_count = 0\<rparr>),
       cached_events = cached_count (tournaments_loop w
        (if \<not> endswith base_url (str ''/'') then base_url @ str ''/'' else base_url)
           (load_existing_events output_file) game format (zip ids (zip names dates))
           \<lparr>events = [], fetch_count = 0, cached_count = 0\<rparr>)\<rparr>"
  using assms
  unfolding scrape_labs_events_def Let_def fetch_html_def
  by simp


lemma second_run:
  assumes s1: "sort_reverse ev1 = Inr out1"
    and ids1: "map (\<lambda>e. map_of e (str ''id'')) ev1 = map (\<lambda>i. Some (JStr i)) cids"
  shows "\<forall>i\<in>set cids. load_existing_events (Saved out1) i \<noteq> None"
    and "sort_reverse (map (\<lambda>i. the (load_existing_events (Saved out1) i)) cids)
         = Inr (foldr insert_desc (map (\<lambda>i. the (load_existing_events (Saved out1) i)) cids) [])"
    and "set (map (\<lambda>i. the (load_existing_events (Saved out1) i)) cids) \<subseteq> set out1"
    and "distinct cids \<Longrightarrow> map (\<lambda>i. the (load_existing_events (Saved out1) i)) cids = ev1"
proof -
  from s1 have cmp: "\<forall>x\<in>set ev1. \<forall>y\<in>set ev1. comparable x y"
    and out1: "out1 = foldr insert_desc ev1 []"
    by (simp_all add: sort_reverse_Inr)
  have set1: "set out1 = set ev1"
    unfolding out1 by (rule set_sort)
  have len: "length ev1 = length cids"
    using arg_cong [OF ids1, of length] by simp
  have nth1: "map_of (ev1 ! k) (str ''id'') = Some (JStr (cids ! k))" if "k < length cids" for k
    using arg_cong [OF ids1, of "\<lambda>xs. xs ! k"] that len by simp
  show def: "\<forall>i\<in>set cids. load_existing_events (Saved out1) i \<noteq> None"
  proof
    fix i assume "i \<in> set cids"
    then obtain k where k: "k < length cids" "cids ! k = i"
      by (auto simp: in_set_conv_nth)
    have "ev1 ! k \<in> set out1"
      using k(1) len by (simp add: set1)
    from load_defined [OF this] nth1 [OF k(1)] k(2)
    show "load_existing_events (Saved out1) i \<noteq> None" by simp
  qed
  show sub: "set (map (\<lambda>i. the (load_existing_events (Saved out1) i)) cids) \<subseteq> set out1"
  proof
    fix e assume "e \<in> set (map (\<lambda>i. the (load_existing_events (Saved out1) i)) cids)"
    then obtain i where i: "i \<in> set cids" "e = the (load_existing_events (Saved out1) i)"
      by auto
    with def obtain e' where "load_existing_events (Saved out1) i = Some e'"
      by auto
    with i(2) load_entry(2) [OF this] show "e \<in> set out1" by simp
  qed
  from sub cmp set1
  have "\<forall>x\<in>set (map (\<lambda>i. the (load_existing_events (Saved out1) i)) cids).
        \<forall>y\<in>set (map (\<lambda>i. the (load_existing_events (Saved out1) i)) cids). comparable x y"
    by blast
  then show "sort_reverse (map (\<lambda>i. the (load_existing_events (Saved out1) i)) cids)
         = Inr (foldr insert_desc (map (\<lambda>i. the (load_existing_events (Saved out1) i)) cids) [])"
    by (simp only: sort_reverse_Inr simp_thms)
  show "map (\<lambda>i. the (load_existing_events (Saved out1) i)) cids = ev1" if d: "distinct cids"
  proof (rule nth_equalityI)
    show "length (map (\<lambda>i. the (load_existing_events (Saved out1) i)) cids) = length ev1"
      by (simp add: len)
  next
    fix k assume "k < length (map (\<lambda>i. the (load_existing_events (Saved out1) i)) cids)"
    then have k: "k < length cids" by simp
    have "distinct (map (\<lambda>i. Some (JStr i)) cids)"
      using d by (simp add: distinct_map inj_on_def)
    then have "distinct (map (\<lambda>e. map_of e (str ''id'')) out1)"
      unfolding out1 by (simp add: distinct_map_sort ids1)
    moreover have "ev1 ! k \<in> set out1"
      using k len by (simp add: set1)
    ultimately have "load_existing_events (Saved out1) (cids ! k) = Some (ev1 ! k)"
      using nth1 [OF k] by (rule load_distinct)
    then show "map (\<lambda>i. the (load_existing_events (Saved out1) i)) cids ! k = ev1 ! k"
      using k by simp
  qed
qed

subsection \<open>The runs on the two sample worlds\<close>

lemma extract_two_items:
  assumes "date_entry (Some (strip dt1)) = Inr d1" "date_entry (Some (strip dt2)) = Inr d2"
    "strip nm1 \<noteq> []" "strip nm2 \<noteq> []"
    "2 \<le> length (split href1 47)" "2 \<le> length (split href2 47)"
  shows "extract_labs_list_items
           (\<lambda>html. listing_page [listing_item href1 nm1 dt1, listing_item href2 nm2 dt2]) html
     = Inr ([split href1 47 ! 1, split href2 47 ! 1], [strip nm1, strip nm2], [d1, d2])"
proof -
  have fa: "find_all (Tag (str ''ul'') [str ''grid''] []
       [listing_item href1 nm1 dt1, listing_item href2 nm2 dt2]) (str ''li'')
     = [listing_item href1 nm1 dt1, listing_item href2 nm2 dt2]"
    by (simp add: find_all_def listing_item_def)
  have "items_loop [listing_item href1 nm1 dt1, listing_item href2 nm2 dt2] ([], [], [])
     = items_loop [listing_item href2 nm2 dt2] ([] @ [split href1 47 ! 1],
         [] @ [or_else (Some (strip nm1)) (str ''Unknown Event'')], [] @ [d1])"
    by (rule items_loop_step [OF text_fields_item(1) attr_anchor assms(5) text_fields_item(2)
          assms(1)])
  also have "\<dots> = items_loop [] (([] @ [split href1 47 ! 1]) @ [split href2 47 ! 1],
         ([] @ [or_else (Some (strip nm1)) (str ''Unknown Event'')])
           @ [or_else (Some (strip nm2)) (str ''Unknown Event'')], ([] @ [d1]) @ [d2])"
    by (rule items_loop_step [OF text_fields_item(1) attr_anchor assms(6) text_fields_item(2)
          assms(2)])
  finally show ?thesis
    using assms(3,4)
    by (simp add: extract_labs_list_items_def select_listing_page fa or_else_def)
qed

lemma strip_more:
  "strip (str ''Cup'') = str ''Cup''" "strip (str ''TBD'') = str ''TBD''"
  "strip (str ''Finals'') = str ''Finals''"
  by (simp_all add: strip_def str_def isspace_def whitespace_def)

lemma date_entry_TBD: "date_entry (Some (str ''TBD'')) = Inr None"
proof -
  have "44 \<notin> set (str ''TBD'')" by (simp add: str_def)
  then have "\<exists>e. strptime (date_str (str ''TBD'')) = Inl e"
    by (intro date_str_fails) simp
  then obtain e where "strptime (date_str (str ''TBD'')) = Inl e" ..
  then show ?thesis by (rule date_entry_no_parse)
qed

lemma split_0043: "split (str ''/0043/standings'') 47 = [[], str ''0043'', str ''standings'']"
  by (simp add: str_def)

lemma sample_listing:
  "extract_labs_list_items (BeautifulSoup sample_world) html
     = Inr ([str ''0042'', str ''0043''], [str ''Regional'', str ''Cup''],
            [Some (str ''2025-07-12''), None])"
proof -
  have "extract_labs_list_items (BeautifulSoup sample_world) html
     = Inr ([split (str ''/0042/standings'') 47 ! 1, split (str ''/0043/standings'') 47 ! 1],
            [strip (str ''Regional''), strip (str ''Cup'')], [Some (str ''2025-07-12''), None])"
    unfolding sample_world_def world.simps
    by (rule extract_two_items)
       (simp_all add: strip_samples strip_more date_entry_tight date_entry_TBD split_sample
          split_0043, simp_all add: str_def)
  then show ?thesis
    by (simp add: split_sample split_0043 strip_samples strip_more)
qed

lemma repeated_listing:
  "extract_labs_list_items (BeautifulSoup repeated_world) html
     = Inr ([str ''0042'', str ''0042''], [str ''Regional'', str ''Finals''],
            [Some (str ''2025-07-12''), Some (str ''2025-07-12'')])"
proof -
  have "extract_labs_list_items (BeautifulSoup repeated_world) html
     = Inr ([split (str ''/0042/standings'') 47 ! 1, split (str ''/0042/standings'') 47 ! 1],
            [strip (str ''Regional''), strip (str ''Finals'')],
            [Some (str ''2025-07-12''), Some (str ''2025-07-12'')])"
    unfolding repeated_world_def world.simps
    by (rule extract_two_items)
       (simp_all add: strip_samples strip_more date_entry_tight split_sample,
        simp_all add: str_def)
  then show ?thesis
    by (simp add: split_sample strip_samples strip_more)
qed

lemma sample_players: "extract_player_count (str ''<p>17 players</p>'') = Inr (Some 17)"
  by (simp add: extract_player_count_def match_players_def py_int_def startswith_def str_def
      isdecimal_def decimal_def decimal_zeros_def isspace_def whitespace_def)

lemma sample_base:
  "(if \<not> endswith (str ''https://labs.example'') (str ''/'')
    then str ''https://labs.example'' @ str ''/'' else str ''https://labs.example'')
   = str ''https://labs.example/''"
  by (simp add: endswith_def str_def)

lemma sample_counts:
  "fetch_division_player_count sample_world (str ''https://labs.example/'') (str ''0042'') (str ''JR'')
     = Some 17"
  "fetch_division_player_count sample_world (str ''https://labs.example/'') (str ''0042'') (str ''SR'')
     = None"
  "fetch_division_player_count sample_world (str ''https://labs.example/'') (str ''0042'') (str ''MA'')
     = None"
  "fetch_division_player_count sample_world (str ''https://labs.example/'') (str ''0043'') d = None"
proof -
  have u: "str ''https://labs.example/'' @ str ''0042'' @ str ''/'' @ str ''JR'' @ str ''/standings''
      = str ''https://labs.example/0042/JR/standings''"
    by (simp add: str_def)
  show "fetch_division_player_count sample_world (str ''https://labs.example/'') (str ''0042'')
      (str ''JR'') = Some 17"
    unfolding fetch_division_player_count_def Let_def fetch_html_def u
    by (simp add: sample_world_def sample_players) (simp add: str_def)
  show "fetch_division_player_count sample_world (str ''https://labs.example/'') (str ''0042'')
      (str ''SR'') = None"
    by (simp add: fetch_division_player_count_def fetch_html_def sample_world_def str_def)
  show "fetch_division_player_count sample_world (str ''https://labs.example/'') (str ''0042'')
      (str ''MA'') = None"
    by (simp add: fetch_division_player_count_def fetch_html_def sample_world_def str_def)
  show "fetch_division_player_count sample_world (str ''https://labs.example/'') (str ''0043'') d
      = None"
    by (simp add: fetch_division_player_count_def fetch_html_def sample_world_def str_def)
qed

lemma sample_loop:
  "tournaments_loop sample_world (str ''https://labs.example/'') Map.empty (str ''PTCG'') None
     [(str ''0042'', str ''Regional'', Some (str ''2025-07-12'')), (str ''0043'', str ''Cup'', None)]
     \<lparr>events = [], fetch_count = 0, cached_count = 0\<rparr>
   = \<lparr>events =
       [new_event (str ''0042_JR'') (str ''Regional'') (Some (str ''2025-07-12'')) (str ''PTCG'')
          (str ''JR'') (Some 17) None,
        new_event (str ''0042_SR'') (str ''Regional'') (Some (str ''2025-07-12'')) (str ''PTCG'')
          (str ''SR'') None None,
        new_event (str ''0042_MA'') (str ''Regional'') (Some (str ''2025-07-12'')) (str ''PTCG'')
          (str ''MA'') None None,
        new_event (str ''0043_JR'') (str ''Cup'') None (str ''PTCG'') (str ''JR'') None None,
        new_event (str ''0043_SR'') (str ''Cup'') None (str ''PTCG'') (str ''SR'') None None,
        new_event (str ''0043_MA'') (str ''Cup'') None (str ''PTCG'') (str ''MA'') None None],
      fetch_count = 6, cached_count = 0\<rparr>"
proof -
  have i: "str ''0042'' @ str ''_'' @ str ''JR'' = str ''0042_JR''"
    "str ''0042'' @ str ''_'' @ str ''SR'' = str ''0042_SR''"
    "str ''0042'' @ str ''_'' @ str ''MA'' = str ''0042_MA''"
    "str ''0043'' @ str ''_'' @ str ''JR'' = str ''0043_JR''"
    "str ''0043'' @ str ''_'' @ str ''SR'' = str ''0043_SR''"
    "str ''0043'' @ str ''_'' @ str ''MA'' = str ''0043_MA''"
    by (simp_all add: str_def)
  show ?thesis
    by (simp add: divisions_def Let_def sample_counts i)
qed

lemma event_key_new:
  "event_key (new_event i n (Some (str ''2025-07-12'')) g d c f) = (JStr (str ''2025-07-12''), or_empty (Some (JStr d)))"
  "event_key (new_event i n None g d c f) = (JStr [], or_empty (Some (JStr d)))"
  by (simp_all add: event_key_def new_event_def or_empty_def str_def)

lemma event_key_new_event:
  "event_key (new_event i n dt g d c f) = (JStr (case dt of None \<Rightarrow> [] | Some s \<Rightarrow> s), JStr d)"
  by (cases dt) (simp_all add: event_key_def new_event_def or_empty_def str_def)

lemma tuple_lt_strings:
  "tuple_lt (JStr a, JStr b) (JStr a', JStr b') = Inr (a < a' \<or> a = a' \<and> b < b')"
  by auto

lemma comparable_new_event:
  "comparable (new_event i n dt g d c f) (new_event i' n' dt' g' d' c' f')"
  by (simp only: comparable_def event_key_new_event tuple_lt_strings sum.case)

lemma insert_desc_new_event:
  "insert_desc (new_event i n dt g d c f) (new_event i' n' dt' g' d' c' f' # ys) =
     (if (case dt of None \<Rightarrow> [] | Some s \<Rightarrow> s) < (case dt' of None \<Rightarrow> [] | Some s \<Rightarrow> s)
         \<or> (case dt of None \<Rightarrow> [] | Some s \<Rightarrow> s) = (case dt' of None \<Rightarrow> [] | Some s \<Rightarrow> s) \<and> d < d'
      then new_event i' n' dt' g' d' c' f' # insert_desc (new_event i n dt g d c f) ys
      else new_event i n dt g d c f # new_event i' n' dt' g' d' c' f' # ys)"
  by (simp only: insert_desc.simps event_key_new_event tuple_lt_strings sum.inject simp_thms)

lemma division_order:
  "str ''JR'' < str ''SR''" "str ''JR'' < str ''MA''" "str ''MA'' < str ''SR''"
  "\<not> str ''SR'' < str ''JR''" "\<not> str ''MA'' < str ''JR''" "\<not> str ''SR'' < str ''MA''"
  "\<not> str ''JR'' < str ''JR''" "\<not> str ''SR'' < str ''SR''" "\<not> str ''MA'' < str ''MA''"
  "[] < str ''2025-07-12''" "\<not> str ''2025-07-12'' < []"
  "str ''2025-07-12'' \<noteq> []" "[] \<noteq> str ''2025-07-12''"
  by (simp_all add: str_def)

lemma sample_sort:
  "sort_reverse
       [new_event (str ''0042_JR'') (str ''Regional'') (Some (str ''2025-07-12'')) (str ''PTCG'')
          (str ''JR'') (Some 17) None,
        new_event (str ''0042_SR'') (str ''Regional'') (Some (str ''2025-07-12'')) (str ''PTCG'')
          (str ''SR'') None None,
        new_event (str ''0042_MA'') (str ''Regional'') (Some (str ''2025-07-12'')) (str ''PTCG'')
          (str ''MA'') None None,
        new_event (str ''0043_JR'') (str ''Cup'') None (str ''PTCG'') (str ''JR'') None None,
        new_event (str ''0043_SR'') (str ''Cup'') None (str ''PTCG'') (str ''SR'') None None,
        new_event (str ''0043_MA'') (str ''Cup'') None (str ''PTCG'') (str ''MA'') None None]
   = Inr sample_snapshot"
proof -
  have "foldr insert_desc
       [new_event (str ''0042_JR'') (str ''Regional'') (Some (str ''2025-07-12'')) (str ''PTCG'')
          (str ''JR'') (Some 17) None,
        new_event (str ''0042_SR'') (str ''Regional'') (Some (str ''2025-07-12'')) (str ''PTCG'')
          (str ''SR'') None None,
        new_event (str ''0042_MA'') (str ''Regional'') (Some (str ''2025-07-12'')) (str ''PTCG'')
          (str ''MA'') None None,
        new_event (str ''0043_JR'') (str ''Cup'') None (str ''PTCG'') (str ''JR'') None None,
        new_event (str ''0043_SR'') (str ''Cup'') None (str ''PTCG'') (str ''SR'') None None,
        new_event (str ''0043_MA'') (str ''Cup'') None (str ''PTCG'') (str ''MA'') None None] []
    = sample_snapshot"
    unfolding sample_snapshot_def
    by (simp only: foldr.simps o_apply id_apply insert_desc.simps(1) insert_desc_new_event
        option.case division_order simp_thms if_True if_False order_less_irrefl)
  then show ?thesis
    by (simp only: sort_reverse_def list.pred_inject comparable_new_event simp_thms if_True)
qed

lemma sample_first_run:
  "scrape_labs_events sample_world (str ''https://labs.example'') NoFile (str ''PTCG'') None
     = Inr \<lparr>returned = sample_snapshot, written = Saved sample_snapshot,
            newly_fetched = 6, cached_events = 0\<rparr>"
proof -
  let ?b = "if \<not> endswith (str ''https://labs.example'') (str ''/'')
    then str ''https://labs.example'' @ str ''/'' else str ''https://labs.example''"
  have h: "http_get sample_world ?b = Inr (str ''<html>'')"
    unfolding sample_base by (simp add: sample_world_def)
  have l: "tournaments_loop sample_world ?b (load_existing_events NoFile) (str ''PTCG'') None
      (zip [str ''0042'', str ''0043''] (zip [str ''Regional'', str ''Cup'']
        [Some (str ''2025-07-12''), None])) \<lparr>events = [], fetch_count = 0, cached_count = 0\<rparr>
     = \<lparr>events =
       [new_event (str ''0042_JR'') (str ''Regional'') (Some (str ''2025-07-12'')) (str ''PTCG'')
          (str ''JR'') (Some 17) None,
        new_event (str ''0042_SR'') (str ''Regional'') (Some (str ''2025-07-12'')) (str ''PTCG'')
          (str ''SR'') None None,
        new_event (str ''0042_MA'') (str ''Regional'') (Some (str ''2025-07-12'')) (str ''PTCG'')
          (str ''MA'') None None,
        new_event (str ''0043_JR'') (str ''Cup'') None (str ''PTCG'') (str ''JR'') None None,
        new_event (str ''0043_SR'') (str ''Cup'') None (str ''PTCG'') (str ''SR'') None None,
        new_event (str ''0043_MA'') (str ''Cup'') None (str ''PTCG'') (str ''MA'') None None],
      fetch_count = 6, cached_count = 0\<rparr>"
    unfolding sample_base
    by (simp only: load_existing_events_def snapshot_file.case zip.simps list.case sample_loop)
  have s: "sort_reverse (events (tournaments_loop sample_world ?b (load_existing_events NoFile)
      (str ''PTCG'') None
      (zip [str ''0042'', str ''0043''] (zip [str ''Regional'', str ''Cup'']
        [Some (str ''2025-07-12''), None])) \<lparr>events = [], fetch_count = 0, cached_count = 0\<rparr>))
     = Inr sample_snapshot"
    unfolding l by (simp only: progress.simps sample_sort)
  from scrape_Inr_conv [OF h sample_listing s]
  show ?thesis
    unfolding l by (simp only: progress.simps)
qed

lemma repeated_counts:
  "fetch_division_player_count repeated_world (str ''https://labs.example/'') (str ''0042'') d = None"
  by (simp add: fetch_division_player_count_def fetch_html_def repeated_world_def str_def)

lemma repeated_event_eq:
  "new_event (str ''0042'' @ str ''_'' @ str d) (str n) (Some (str ''2025-07-12'')) (str ''PTCG'')
     (str d) None None = repeated_event n d"
  by (simp add: repeated_event_def str_def)

lemma repeated_loop:
  "tournaments_loop repeated_world (str ''https://labs.example/'') Map.empty (str ''PTCG'') None
     [(str ''0042'', str ''Regional'', Some (str ''2025-07-12'')),
      (str ''0042'', str ''Finals'', Some (str ''2025-07-12''))]
     \<lparr>events = [], fetch_count = 0, cached_count = 0\<rparr>
   = \<lparr>events =
       [repeated_event ''Regional'' ''JR'', repeated_event ''Regional'' ''SR'',
        repeated_event ''Regional'' ''MA'', repeated_event ''Finals'' ''JR'',
        repeated_event ''Finals'' ''SR'', repeated_event ''Finals'' ''MA''],
      fetch_count = 6, cached_count = 0\<rparr>"
  by (simp add: divisions_def Let_def repeated_counts repeated_event_eq)

lemma repeated_sort:
  "foldr insert_desc
       [repeated_event ''Regional'' ''JR'', repeated_event ''Regional'' ''SR'',
        repeated_event ''Regional'' ''MA'', repeated_event ''Finals'' ''JR'',
        repeated_event ''Finals'' ''SR'', repeated_event ''Finals'' ''MA''] []
   = repeated_first"
  "foldr insert_desc
       [repeated_event ''Finals'' ''JR'', repeated_event ''Finals'' ''SR'',
        repeated_event ''Finals'' ''MA'', repeated_event ''Finals'' ''JR'',
        repeated_event ''Finals'' ''SR'', repeated_event ''Finals'' ''MA''] []
   = repeated_second"
  unfolding repeated_first_def repeated_second_def repeated_event_def
  by (simp_all only: foldr.simps o_apply id_apply insert_desc.simps(1) insert_desc_new_event
        option.case division_order simp_thms if_True if_False order_less_irrefl)

lemma sort_repeated:
  "sort_reverse [repeated_event n1 d1, repeated_event n2 d2, repeated_event n3 d3,
       repeated_event n4 d4, repeated_event n5 d5, repeated_event n6 d6]
   = Inr (foldr insert_desc [repeated_event n1 d1, repeated_event n2 d2, repeated_event n3 d3,
       repeated_event n4 d4, repeated_event n5 d5, repeated_event n6 d6] [])"
  unfolding repeated_event_def
  by (simp only: sort_reverse_def list.pred_inject comparable_new_event simp_thms if_True)

lemma repeated_first_run:
  "scrape_labs_events repeated_world (str ''https://labs.example'') NoFile (str ''PTCG'') None
     = Inr \<lparr>returned = repeated_first, written = Saved repeated_first,
            newly_fetched = 6, cached_events = 0\<rparr>"
proof -
  let ?b = "if \<not> endswith (str ''https://labs.example'') (str ''/'')
    then str ''https://labs.example'' @ str ''/'' else str ''https://labs.example''"
  have h: "http_get repeated_world ?b = Inr (str ''<html>'')"
    unfolding sample_base by (simp add: repeated_world_def)
  have l: "tournaments_loop repeated_world ?b (load_existing_events NoFile) (str ''PTCG'') None
      (zip [str ''0042'', str ''0042''] (zip [str ''Regional'', str ''Finals'']
        [Some (str ''2025-07-12''), Some (str ''2025-07-12'')]))
      \<lparr>events = [], fetch_count = 0, cached_count = 0\<rparr>
     = \<lparr>events =
       [repeated_event ''Regional'' ''JR'', repeated_event ''Regional'' ''SR'',
        repeated_event ''Regional'' ''MA'', repeated_event ''Finals'' ''JR'',
        repeated_event ''Finals'' ''SR'', repeated_event ''Finals'' ''MA''],
      fetch_count = 6, cached_count = 0\<rparr>"
    unfolding sample_base
    by (simp only: load_existing_events_def snapshot_file.case zip.simps list.case repeated_loop)
  have s: "sort_reverse (events (tournaments_loop repeated_world ?b (load_existing_events NoFile)
      (str ''PTCG'') None
      (zip [str ''0042'', str ''0042''] (zip [str ''Regional'', str ''Finals'']
        [Some (str ''2025-07-12''), Some (str ''2025-07-12'')]))
      \<lparr>events = [], fetch_count = 0, cached_count = 0\<rparr>))
     = Inr repeated_first"
    unfolding l by (simp only: progress.simps sort_repeated repeated_sort)
  from scrape_Inr_conv [OF h repeated_listing s]
  show ?thesis
    unfolding l by (simp only: progress.simps)
qed

lemma repeated_load:
  "load_existing_events (Saved repeated_first) (str ''0042'' @ str ''_'' @ str ''JR'')
     = Some (repeated_event ''Finals'' ''JR'')"
  "load_existing_events (Saved repeated_first) (str ''0042'' @ str ''_'' @ str ''SR'')
     = Some (repeated_event ''Finals'' ''SR'')"
  "load_existing_events (Saved repeated_first) (str ''0042'' @ str ''_'' @ str ''MA'')
     = Some (repeated_event ''Finals'' ''MA'')"
  by (simp_all add: load_existing_events_def repeated_first_def repeated_event_def new_event_def
      str_def)

lemma repeated_second_loop:
  "tournaments_loop repeated_world (str ''https://labs.example/'')
     (load_existing_events (Saved repeated_first)) (str ''PTCG'') None
     [(str ''0042'', str ''Regional'', Some (str ''2025-07-12'')),
      (str ''0042'', str ''Finals'', Some (str ''2025-07-12''))]
     \<lparr>events = [], fetch_count = 0, cached_count = 0\<rparr>
   = \<lparr>events =
       [repeated_event ''Finals'' ''JR'', repeated_event ''Finals'' ''SR'',
        repeated_event ''Finals'' ''MA'', repeated_event ''Finals'' ''JR'',
        repeated_event ''Finals'' ''SR'', repeated_event ''Finals'' ''MA''],
      fetch_count = 0, cached_count = 6\<rparr>"
  by (simp add: divisions_def Let_def repeated_load)

lemma repeated_second_run:
  "scrape_labs_events repeated_world (str ''https://labs.example'') (Saved repeated_first)
     (str ''PTCG'') None
     = Inr \<lparr>returned = repeated_second, written = Saved repeated_second,
            newly_fetched = 0, cached_events = 6\<rparr>"
proof -
  let ?b = "if \<not> endswith (str ''https://labs.example'') (str ''/'')
    then str ''https://labs.example'' @ str ''/'' else str ''https://labs.example''"
  have h: "http_get repeated_world ?b = Inr (str ''<html>'')"
    unfolding sample_base by (simp add: repeated_world_def)
  have l: "tournaments_loop repeated_world ?b (load_existing_events (Saved repeated_first))
      (str ''PTCG'') None
      (zip [str ''0042'', str ''0042''] (zip [str ''Regional'', str ''Finals'']
        [Some (str ''2025-07-12''), Some (str ''2025-07-12'')]))
      \<lparr>events = [], fetch_count = 0, cached_count = 0\<rparr>
     = \<lparr>events =
       [repeated_event ''Finals'' ''JR'', repeated_event ''Finals'' ''SR'',
        repeated_event ''Finals'' ''MA'', repeated_event ''Finals'' ''JR'',
        repeated_event ''Finals'' ''SR'', repeated_event ''Finals'' ''MA''],
      fetch_count = 0, cached_count = 6\<rparr>"
    unfolding sample_base
    by (simp only: zip.simps list.case repeated_second_loop)
  have s: "sort_reverse (events (tournaments_loop repeated_world ?b
      (load_existing_events (Saved repeated_first)) (str ''PTCG'') None
      (zip [str ''0042'', str ''0042''] (zip [str ''Regional'', str ''Finals'']
        [Some (str ''2025-07-12''), Some (str ''2025-07-12'')]))
      \<lparr>events = [], fetch_count = 0, cached_count = 0\<rparr>))
     = Inr repeated_second"
    unfolding l by (simp only: progress.simps sort_repeated repeated_sort)
  from scrape_Inr_conv [OF h repeated_listing s]
  show ?thesis
    unfolding l by (simp only: progress.simps)
qed

lemma repeated_differ: "repeated_second \<noteq> repeated_first"
  by (simp add: repeated_first_def repeated_second_def repeated_event_def new_event_def str_def)

lemma repeated_ids:
  "\<not> distinct (map (\<lambda>e. map_of e (str ''id'')) repeated_first)"
  by (simp add: repeated_first_def repeated_event_def new_event_def)

lemma sample_page_fetched:
  "http_get sample_world
     (if \<not> endswith (str ''https://labs.example'') (str ''/'')
      then str ''https://labs.example'' @ str ''/'' else str ''https://labs.example'')
   = Inr (str ''<html>'')"
  unfolding sample_base by (simp add: sample_world_def)

lemma sample_ids_distinct: "distinct [str ''0042'', str ''0043'']"
  by (simp add: str_def)

subsection \<open>The order of the snapshot\<close>



subsection \<open>The ids of the snapshot\<close>

text \<open>
  Claim C9 as stated fails. The listing parser keeps every item that has a usable anchor,
  so a page that shows tournament 0042 twice gives the id twice; neither loop of the run
  looks at the ids it has already formed, and the list returned holds each of
  \<open>0042_JR\<close>, \<open>0042_SR\<close> and \<open>0042_MA\<close> twice.
\<close>

theorem repeated_listing_repeats_ids:
  "extract_labs_list_items (BeautifulSoup repeated_world) (str ''<html>'')
     = Inr ([str ''0042'', str ''0042''], [str ''Regional'', str ''Finals''],
            [Some (str ''2025-07-12''), Some (str ''2025-07-12'')])
   \<and> scrape_labs_events repeated_world (str ''https://labs.example'') NoFile (str ''PTCG'') None
     = Inr \<lparr>returned = repeated_first, written = Saved repeated_first,
            newly_fetched = 6, cached_events = 0\<rparr>
   \<and> \<not> distinct (map (\<lambda>e. map_of e (str ''id'')) repeated_first)"
  using repeated_listing [of "str ''<html>''"] repeated_first_run repeated_ids
  by (intro conjI)

text \<open>
  Claim C9, amended. For every run that ends, every prior snapshot and every listing
  whose tournament ids, as the parser returns them, are pairwise different, no two records
  of the list returned and written have the same \<^verbatim>\<open>id\<close>.
\<close>

theorem distinct_listing_distinct_ids:
  assumes "scrape_labs_events w base_url output_file game format = Inr r"
    and "http_get w (if \<not> endswith base_url (str ''/'') then base_url @ str ''/'' else base_url)
           = Inr html"
    and "extract_labs_list_items (BeautifulSoup w) html = Inr (ids, names, dates)"
    and "distinct ids"
  shows "distinct (map (\<lambda>e. map_of e (str ''id'')) (returned r))"
proof -
  let ?b = "if \<not> endswith base_url (str ''/'') then base_url @ str ''/'' else base_url"
  from assms(1) obtain html' ids' names' dates' p where
    h: "http_get w ?b = Inr html'"
    and x: "extract_labs_list_items (BeautifulSoup w) html' = Inr (ids', names', dates')"
    and p: "p = tournaments_loop w ?b (load_existing_events output_file) game format
           (zip ids' (zip names' dates')) \<lparr>events = [], fetch_count = 0, cached_count = 0\<rparr>"
    and s: "sort_reverse (events p) = Inr (returned r)"
    and "written r = Saved (returned r)"
    and "newly_fetched r = fetch_count p" "cached_events r = cached_count p"
    by (rule scrape_Inr)
  from h assms(2) have "html' = html" by simp
  with x assms(3) have same: "ids' = ids" "names' = names" "dates' = dates" by simp_all
  have "map (\<lambda>e. map_of e (str ''id'')) (events p)
      = map (\<lambda>i. Some (JStr i)) (composite_ids (map fst (zip ids (zip names dates))))"
    unfolding p same
    by (subst tournaments_loop_ids) (simp_all add: load_entry(1))
  also have "map fst (zip ids (zip names dates)) = ids"
    by (rule extract_lengths [OF assms(3)])
  finally have "distinct (map (\<lambda>e. map_of e (str ''id'')) (events p))"
    using distinct_composite_ids [OF assms(4)]
    by (simp add: distinct_map inj_on_def)
  moreover from s have "returned r = foldr insert_desc (events p) []"
    by (simp add: sort_reverse_Inr)
  ultimately show ?thesis
    by (simp add: distinct_map_sort)
qed

theorem distinct_listing_distinct_ids_witness:
  "distinct [str ''0042'', str ''0043'']
   \<and> scrape_labs_events sample_world (str ''https://labs.example'') NoFile (str ''PTCG'') None
     = Inr \<lparr>returned = sample_snapshot, written = Saved sample_snapshot,
            newly_fetched = 6, cached_events = 0\<rparr>
   \<and> distinct (map (\<lambda>e. map_of e (str ''id'')) sample_snapshot)"
  using distinct_listing_distinct_ids [OF sample_first_run sample_page_fetched sample_listing sample_ids_distinct]
    sample_first_run sample_ids_distinct
  by (simp only: run.simps simp_thms)

subsection \<open>The second run\<close>

text \<open>
  Claim C1 as stated fails. On the page that shows tournament 0042 twice, under the names
  \<open>Regional\<close> and \<open>Finals\<close>, the first run fetches six counts and writes six records,
  two under each id. The second run finds every id in the snapshot and fetches nothing,
  but the dictionary keeps one record per id, the later one, so the six records it
  writes are the three of \<open>Finals\<close> twice: a different file.
\<close>

theorem repeated_listing_second_run_differs:
  "scrape_labs_events repeated_world (str ''https://labs.example'') NoFile (str ''PTCG'') None
     = Inr \<lparr>returned = repeated_first, written = Saved repeated_first,
            newly_fetched = 6, cached_events = 0\<rparr>
   \<and> scrape_labs_events repeated_world (str ''https://labs.example'') (Saved repeated_first)
       (str ''PTCG'') None
     = Inr \<lparr>returned = repeated_second, written = Saved repeated_second,
            newly_fetched = 0, cached_events = 6\<rparr>
   \<and> Saved repeated_second \<noteq> Saved repeated_first"
  using repeated_first_run repeated_second_run repeated_differ
  by (simp only: snapshot_file.inject simp_thms)

text \<open>
  Claim C1, amended. After a run that has ended, a second run with the same base URL,
  output path, game and format, on unchanged pages, ends too; it fetches no count, every
  composite id of the listing being found in the snapshot of the first run; the records
  it returns are the records it looked up in that snapshot, unmodified and sorted; and
  when the tournament ids of the listing are pairwise different, it returns the list the
  first run returned and writes the same file.
\<close>

theorem second_run_reuses_snapshot:
  assumes r1: "scrape_labs_events w base_url output_file game format = Inr r1"
    and h: "http_get w (if \<not> endswith base_url (str ''/'') then base_url @ str ''/'' else base_url)
           = Inr html"
    and x: "extract_labs_list_items (BeautifulSoup w) html = Inr (ids, names, dates)"
  shows "\<exists>r2. scrape_labs_events w base_url (written r1) game format = Inr r2
       \<and> newly_fetched r2 = 0
       \<and> cached_events r2 = length (composite_ids ids)
       \<and> (\<forall>i\<in>set (composite_ids ids). load_existing_events (written r1) i \<noteq> None)
       \<and> returned r2 = foldr insert_desc
           (map (\<lambda>i. the (load_existing_events (written r1) i)) (composite_ids ids)) []
       \<and> set (returned r2) \<subseteq> set (returned r1)
       \<and> (distinct ids \<longrightarrow> returned r2 = returned r1 \<and> written r2 = written r1)"
proof -
  let ?b = "if \<not> endswith base_url (str ''/'') then base_url @ str ''/'' else base_url"
  let ?p0 = "\<lparr>events = [], fetch_count = 0, cached_count = 0\<rparr>"
  let ?ts = "zip ids (zip names dates)"
  let ?cids = "composite_ids ids"
  from r1 obtain html' ids' names' dates' p where
    h': "http_get w ?b = Inr html'"
    and x': "extract_labs_list_items (BeautifulSoup w) html' = Inr (ids', names', dates')"
    and p: "p = tournaments_loop w ?b (load_existing_events output_file) game format
           (zip ids' (zip names' dates')) ?p0"
    and s: "sort_reverse (events p) = Inr (returned r1)"
    and wr: "written r1 = Saved (returned r1)"
    and "newly_fetched r1 = fetch_count p" "cached_events r1 = cached_count p"
    by (rule scrape_Inr)
  from h h' have "html' = html" by simp
  with x x' have same: "ids' = ids" "names' = names" "dates' = dates" by simp_all
  have fst: "map fst ?ts = ids"
    by (rule extract_lengths [OF x])
  have ids1: "map (\<lambda>e. map_of e (str ''id'')) (events p) = map (\<lambda>i. Some (JStr i)) ?cids"
    unfolding p same
    by (subst tournaments_loop_ids) (simp_all add: load_entry(1) fst)
  note sr = second_run [OF s ids1]
  let ?E = "load_existing_events (Saved (returned r1))"
  let ?p2 = "tournaments_loop w ?b ?E game format ?ts ?p0"
  from sr(1) have "\<forall>i\<in>set (composite_ids (map fst ?ts)). ?E i \<noteq> None"
    by (simp only: fst)
  from tournaments_loop_hits [OF this, of w ?b game format ?p0]
  have ev2: "events ?p2 = map (\<lambda>i. the (?E i)) ?cids"
    and fc: "fetch_count ?p2 = 0" and cc: "cached_count ?p2 = length ?cids"
    by (simp_all add: fst)
  let ?out2 = "foldr insert_desc (map (\<lambda>i. the (?E i)) ?cids) []"
  have "sort_reverse (events ?p2) = Inr ?out2"
    unfolding ev2 by (rule sr(2))
  from scrape_Inr_conv [OF h x this]
  have r2: "scrape_labs_events w base_url (written r1) game format =
     Inr \<lparr>returned = ?out2, written = Saved ?out2, newly_fetched = fetch_count ?p2,
          cached_events = cached_count ?p2\<rparr>"
    by (simp only: wr)
  have sub: "set ?out2 \<subseteq> set (returned r1)"
    using sr(3) by (simp only: set_sort)
  have same_out: "?out2 = returned r1" if "distinct ids"
  proof -
    from that have "distinct ?cids" by (rule distinct_composite_ids)
    from sr(4) [OF this] have "?out2 = foldr insert_desc (events p) []" by simp
    with s show ?thesis by (simp add: sort_reverse_Inr)
  qed
  have hits: "\<forall>i\<in>set ?cids. load_existing_events (written r1) i \<noteq> None"
    unfolding wr by (rule sr(1))
  show ?thesis
    using r2 sub same_out hits by (simp add: fc cc wr)
qed

theorem second_run_reuses_snapshot_witness:
  "scrape_labs_events sample_world (str ''https://labs.example'') NoFile (str ''PTCG'') None
     = Inr \<lparr>returned = sample_snapshot, written = Saved sample_snapshot,
            newly_fetched = 6, cached_events = 0\<rparr>
   \<and> distinct [str ''0042'', str ''0043'']
   \<and> (\<exists>r2. scrape_labs_events sample_world (str ''https://labs.example'') (Saved sample_snapshot)
              (str ''PTCG'') None = Inr r2
          \<and> newly_fetched r2 = 0 \<and> cached_events r2 = 6
          \<and> returned r2 = sample_snapshot \<and> written r2 = Saved sample_snapshot)"
proof -
  have n: "length (composite_ids [str ''0042'', str ''0043'']) = 6"
    by (simp add: composite_ids_def divisions_def)
  from second_run_reuses_snapshot [OF sample_first_run sample_page_fetched sample_listing]
  obtain r2 where
    "scrape_labs_events sample_world (str ''https://labs.example'') (Saved sample_snapshot)
              (str ''PTCG'') None = Inr r2"
    "newly_fetched r2 = 0" "cached_events r2 = 6"
    "distinct [str ''0042'', str ''0043''] \<longrightarrow>
       returned r2 = sample_snapshot \<and> written r2 = Saved sample_snapshot"
    unfolding n by (auto simp only: run.simps)
  with sample_ids_distinct sample_first_run show ?thesis
    by (intro conjI exI [of _ r2]) simp_all
qed

end
